theory Spec2Isabelle
  imports Complex_Main "HOL-Library.Word"
begin

section \<open>Values of the host language\<close>

text \<open>
  A JavaScript string is a sequence of 16-bit code units; a \<open>Uint8Array\<close> (and the
  \<open>ArrayBuffer\<close> behind it) is a sequence of bytes.
\<close>

type_synonym byte = "8 word"
type_synonym code_unit = "16 word"
type_synonym jsstring = "code_unit list"

text \<open>
  What the code can throw. The first four are the \<open>Error\<close> objects that
  \<open>crypto.js\<close> constructs itself, told apart by their message; the others are raised
  by the platform functions it calls.
\<close>

datatype error =
    KeyGenerationFailed      \<comment> \<open>\<open>new Error(...)\<close> of \<open>generateKey\<close>\<close>
  | InvalidKeyFormat         \<comment> \<open>\<open>new Error(...)\<close> of \<open>importKey\<close>\<close>
  | EncryptionFailed         \<comment> \<open>\<open>new Error(...)\<close> of \<open>encrypt\<close>\<close>
  | DecryptionFailed         \<comment> \<open>\<open>new Error(...)\<close> of \<open>decrypt\<close>\<close>
  | InvalidCharacterError    \<comment> \<open>\<open>DOMException\<close> of \<open>btoa\<close> and \<open>atob\<close>\<close>
  | DataError                \<comment> \<open>\<open>crypto.subtle.importKey\<close>: key length\<close>
  | OperationError           \<comment> \<open>\<open>crypto.subtle\<close>: a primitive failed\<close>
  | SyntaxError              \<comment> \<open>\<open>JSON.parse\<close>, \<open>response.json()\<close>\<close>
  | TypeError                \<comment> \<open>property of \<open>null\<close>, body already read, no \<open>crypto.subtle\<close>\<close>
  | RangeError               \<comment> \<open>\<open>TypedArray.set\<close>, \<open>new Response\<close>: out of range\<close>
  | NetworkError             \<comment> \<open>the global \<open>fetch\<close> rejected\<close>

type_synonym 'a result = "error + 'a"

definition bind_result :: "'a result \<Rightarrow> ('a \<Rightarrow> 'b result) \<Rightarrow> 'b result" where
  "bind_result r f = (case r of Inl e \<Rightarrow> Inl e | Inr v \<Rightarrow> f v)"

text \<open>\<open>try { ... } catch (error) { throw new Error(msg) }\<close>: every failure becomes \<open>e\<close>.\<close>

definition rethrow_as :: "error \<Rightarrow> 'a result \<Rightarrow> 'a result" where
  "rethrow_as e r = (case r of Inl _ \<Rightarrow> Inl e | Inr v \<Rightarrow> Inr v)"

section \<open>The platform's base64: \<open>btoa\<close> and \<open>atob\<close>\<close>

text \<open>The alphabet of RFC 4648: \<open>A-Z\<close>, \<open>a-z\<close>, \<open>0-9\<close>, \<open>+\<close>, \<open>/\<close>.\<close>

definition b64_char :: "nat \<Rightarrow> code_unit" where
  "b64_char n =
     (if n < 26 then of_nat (65 + n)
      else if n < 52 then of_nat (97 + (n - 26))
      else if n < 62 then of_nat (48 + (n - 52))
      else if n = 62 then 43 else 47)"

definition b64_val :: "code_unit \<Rightarrow> nat option" where
  "b64_val c =
     (let n = unat c in
      if 65 \<le> n \<and> n \<le> 90 then Some (n - 65)
      else if 97 \<le> n \<and> n \<le> 122 then Some (n - 71)
      else if 48 \<le> n \<and> n \<le> 57 then Some (n + 4)
      else if n = 43 then Some 62
      else if n = 47 then Some 63
      else None)"

definition pad :: code_unit where
  "pad = 61"

text \<open>Three bytes become four sextets; a last group of one or two bytes is padded.\<close>

fun b64_encode :: "nat list \<Rightarrow> jsstring" where
  "b64_encode (a # b # c # rest) =
     b64_char (a div 4) # b64_char ((a mod 4) * 16 + b div 16) #
     b64_char ((b mod 16) * 4 + c div 64) # b64_char (c mod 64) # b64_encode rest"
| "b64_encode [a, b] =
     [b64_char (a div 4), b64_char ((a mod 4) * 16 + b div 16),
      b64_char ((b mod 16) * 4), pad]"
| "b64_encode [a] = [b64_char (a div 4), b64_char ((a mod 4) * 16), pad, pad]"
| "b64_encode [] = []"

text \<open>
  \<open>btoa(data)\<close>: throws when a code unit is above \<open>0xFF\<close>, otherwise encodes the
  code units as bytes.
\<close>

definition btoa :: "jsstring \<Rightarrow> jsstring result" where
  "btoa s =
     (if list_ex (\<lambda>c. 255 < unat c) s then Inl InvalidCharacterError
      else Inr (b64_encode (map unat s)))"

text \<open>
  \<open>atob(data)\<close> is the forgiving decoder of the Infra standard: ASCII whitespace is
  removed; when the length is a multiple of four, one or two trailing \<open>=\<close> are removed;
  a length of 1 modulo 4 or a character outside the alphabet is a failure; the bits
  left over in a last group of two or three characters are dropped.
\<close>

definition is_ascii_whitespace :: "code_unit \<Rightarrow> bool" where
  "is_ascii_whitespace c = (c = 9 \<or> c = 10 \<or> c = 12 \<or> c = 13 \<or> c = 32)"

definition strip_padding :: "jsstring \<Rightarrow> jsstring" where
  "strip_padding s =
     (if length s mod 4 = 0 \<and> s \<noteq> [] \<and> last s = pad
      then (let s1 = butlast s in
            if s1 \<noteq> [] \<and> last s1 = pad then butlast s1 else s1)
      else s)"

fun b64_vals :: "jsstring \<Rightarrow> nat list option" where
  "b64_vals [] = Some []"
| "b64_vals (c # cs) =
     (case b64_val c of None \<Rightarrow> None
      | Some v \<Rightarrow> (case b64_vals cs of None \<Rightarrow> None | Some vs \<Rightarrow> Some (v # vs)))"

fun b64_decode :: "nat list \<Rightarrow> nat list" where
  "b64_decode (a # b # c # d # rest) =
     (a * 4 + b div 16) # ((b mod 16) * 16 + c div 4) # ((c mod 4) * 64 + d) #
     b64_decode rest"
| "b64_decode [a, b, c] = [a * 4 + b div 16, (b mod 16) * 16 + c div 4]"
| "b64_decode [a, b] = [a * 4 + b div 16]"
| "b64_decode [a] = []"
| "b64_decode [] = []"

definition atob :: "jsstring \<Rightarrow> jsstring result" where
  "atob s =
     (let d = strip_padding (filter (\<lambda>c. \<not> is_ascii_whitespace c) s) in
      if length d mod 4 = 1 then Inl InvalidCharacterError
      else (case b64_vals d of
              None \<Rightarrow> Inl InvalidCharacterError
            | Some vs \<Rightarrow> Inr (map of_nat (b64_decode vs))))"

section \<open>\<open>CryptoManager\<close>: the framing helpers\<close>

text \<open>
  \<open>arrayBufferToBase64\<close>: the loop appends \<open>String.fromCharCode(bytes[i])\<close> to
  \<open>binary\<close> for every index, then \<open>btoa(binary)\<close>.
\<close>

fun binary_of_bytes :: "byte list \<Rightarrow> jsstring \<Rightarrow> jsstring" where
  "binary_of_bytes [] binary = binary"
| "binary_of_bytes (b # bs) binary = binary_of_bytes bs (binary @ [ucast b])"

definition arrayBufferToBase64 :: "byte list \<Rightarrow> jsstring result" where
  "arrayBufferToBase64 buffer = btoa (binary_of_bytes buffer [])"

text \<open>
  \<open>base64ToArrayBuffer\<close>: \<open>atob\<close>, then \<open>bytes[i] = binary.charCodeAt(i)\<close>; a store
  into a \<open>Uint8Array\<close> keeps the low eight bits.
\<close>

fun bytes_of_binary :: "jsstring \<Rightarrow> byte list \<Rightarrow> byte list" where
  "bytes_of_binary [] bytes = bytes"
| "bytes_of_binary (c # cs) bytes = bytes_of_binary cs (bytes @ [ucast c])"

definition base64ToArrayBuffer :: "jsstring \<Rightarrow> byte list result" where
  "base64ToArrayBuffer base64 =
     bind_result (atob base64) (\<lambda>binary. Inr (bytes_of_binary binary []))"

section \<open>The platform's \<open>TextEncoder\<close> and \<open>TextDecoder\<close>\<close>

text \<open>
  \<open>new TextEncoder().encode(s)\<close> first reads the string as scalar values: a lead
  surrogate followed by a trail surrogate is one supplementary code point, and any
  other surrogate is replaced by \<open>U+FFFD\<close>. Each scalar value is then written in UTF-8.
\<close>

definition is_lead :: "code_unit \<Rightarrow> bool" where
  "is_lead c = (0xD800 \<le> unat c \<and> unat c \<le> 0xDBFF)"

definition is_trail :: "code_unit \<Rightarrow> bool" where
  "is_trail c = (0xDC00 \<le> unat c \<and> unat c \<le> 0xDFFF)"

definition bmp_scalar :: "code_unit \<Rightarrow> nat" where
  "bmp_scalar c = (if is_lead c \<or> is_trail c then 0xFFFD else unat c)"

definition pair_scalar :: "code_unit \<Rightarrow> code_unit \<Rightarrow> nat" where
  "pair_scalar c d = 0x10000 + (unat c - 0xD800) * 0x400 + (unat d - 0xDC00)"

fun scalar_values :: "jsstring \<Rightarrow> nat list" where
  "scalar_values (c # d # cs) =
     (if is_lead c \<and> is_trail d then pair_scalar c d # scalar_values cs
      else bmp_scalar c # scalar_values (d # cs))"
| "scalar_values [c] = [bmp_scalar c]"
| "scalar_values [] = []"

definition utf8_bytes :: "nat \<Rightarrow> nat list" where
  "utf8_bytes cp =
     (if cp < 0x80 then [cp]
      else if cp < 0x800 then [0xC0 + cp div 64, 0x80 + cp mod 64]
      else if cp < 0x10000 then
        [0xE0 + cp div 4096, 0x80 + cp div 64 mod 64, 0x80 + cp mod 64]
      else
        [0xF0 + cp div 262144, 0x80 + cp div 4096 mod 64, 0x80 + cp div 64 mod 64,
         0x80 + cp mod 64])"

definition TextEncoder_encode :: "jsstring \<Rightarrow> byte list" where
  "TextEncoder_encode s = map of_nat (concat (map utf8_bytes (scalar_values s)))"

text \<open>
  \<open>new TextDecoder().decode(bytes)\<close> is the UTF-8 decoder of the Encoding standard
  in replacement mode. Its state is the code point being assembled, the continuation
  bytes seen and needed, and the bounds of the next continuation byte. A byte out of
  bounds ends the sequence with \<open>U+FFFD\<close> and is read again as a first byte.
\<close>

function utf8_decode :: "nat \<Rightarrow> nat \<Rightarrow> nat \<Rightarrow> nat \<Rightarrow> nat \<Rightarrow> nat list \<Rightarrow> nat list" where
  "utf8_decode cp seen needed lower upper [] = (if needed \<noteq> 0 then [0xFFFD] else [])"
| "utf8_decode cp seen needed lower upper (b # bs) =
     (if needed = 0 then
        (if b \<le> 0x7F then b # utf8_decode 0 0 0 0x80 0xBF bs
         else if 0xC2 \<le> b \<and> b \<le> 0xDF then utf8_decode (b mod 32) 0 1 0x80 0xBF bs
         else if 0xE0 \<le> b \<and> b \<le> 0xEF then
           utf8_decode (b mod 16) 0 2 (if b = 0xE0 then 0xA0 else 0x80)
             (if b = 0xED then 0x9F else 0xBF) bs
         else if 0xF0 \<le> b \<and> b \<le> 0xF4 then
           utf8_decode (b mod 8) 0 3 (if b = 0xF0 then 0x90 else 0x80)
             (if b = 0xF4 then 0x8F else 0xBF) bs
         else 0xFFFD # utf8_decode 0 0 0 0x80 0xBF bs)
      else if b < lower \<or> upper < b then 0xFFFD # utf8_decode 0 0 0 0x80 0xBF (b # bs)
      else (let cp' = cp * 64 + b mod 64 in
            if seen + 1 \<noteq> needed then utf8_decode cp' (seen + 1) needed 0x80 0xBF bs
            else cp' # utf8_decode 0 0 0 0x80 0xBF bs))"
  by pat_completeness auto
termination
  by (relation "measure (\<lambda>(cp, seen, needed, lower, upper, bs).
        2 * length bs + (if needed = 0 then 0 else 1))") auto

text \<open>
  The decoder was made without \<open>ignoreBOM\<close>, so a first code point \<open>U+FEFF\<close> is
  dropped. The code points are then written as UTF-16 code units.
\<close>

definition strip_bom :: "nat list \<Rightarrow> nat list" where
  "strip_bom cps = (case cps of [] \<Rightarrow> [] | cp # rest \<Rightarrow> if cp = 0xFEFF then rest else cps)"

definition utf16_units :: "nat \<Rightarrow> jsstring" where
  "utf16_units cp =
     (if cp < 0x10000 then [of_nat cp]
      else [of_nat (0xD800 + (cp - 0x10000) div 0x400),
            of_nat (0xDC00 + (cp - 0x10000) mod 0x400)])"

definition TextDecoder_decode :: "byte list \<Rightarrow> jsstring" where
  "TextDecoder_decode bytes =
     concat (map utf16_units (strip_bom (utf8_decode 0 0 0 0x80 0xBF (map unat bytes))))"

text \<open>A string with no unpaired surrogate, and one that starts with \<open>U+FEFF\<close>.\<close>

fun well_formed :: "jsstring \<Rightarrow> bool" where
  "well_formed (c # d # cs) =
     (if is_lead c then is_trail d \<and> well_formed cs
      else \<not> is_trail c \<and> well_formed (d # cs))"
| "well_formed [c] = (\<not> is_lead c \<and> \<not> is_trail c)"
| "well_formed [] = True"

definition starts_with_bom :: "jsstring \<Rightarrow> bool" where
  "starts_with_bom s = (case s of [] \<Rightarrow> False | c # _ \<Rightarrow> c = 0xFEFF)"

section \<open>The platform: WebCrypto, JSON, storage, the network\<close>

text \<open>String literals of the source are ASCII; \<open>ascii\<close> writes them as code units.\<close>

definition ascii :: "string \<Rightarrow> jsstring" where
  "ascii s = map (\<lambda>c. of_char c) s"

text \<open>
  A value that \<open>JSON.parse\<close> returns. An object lists each member once, as
  \<open>JSON.parse\<close> leaves it.
\<close>

datatype json =
    JNull
  | JBool bool
  | JNumber real
  | JString jsstring
  | JArray "json list"
  | JObject "(jsstring \<times> json) list"

datatype hash_alg = SHA_1 | SHA_256 | SHA_384 | SHA_512

text \<open>
  The \<open>body\<close> of the options of a request: absent (\<open>undefined\<close> or \<open>null\<close>), a
  string, or an object that is not a string (a \<open>Blob\<close>, a buffer, a form), kept as
  its bytes.
\<close>

datatype body_init = NoBody | StringBody jsstring | OtherBody "byte list"

record request_init =
  body :: body_init
  headers :: "(jsstring \<rightharpoonup> jsstring) option"
  passthrough :: "(jsstring \<times> jsstring) list"

text \<open>
  A \<open>Response\<close>. Header names are kept in lower case, as \<open>Headers\<close> does. Reading the
  body marks it used, and a used body cannot be read again.
\<close>

record response =
  status :: nat
  statusText :: jsstring
  resp_headers :: "jsstring \<rightharpoonup> jsstring"
  body_text :: jsstring
  bodyUsed :: bool

text \<open>
  What the browser provides and \<open>crypto.js\<close> only calls: whether \<open>crypto.subtle\<close>
  exists (it does not outside a secure context), AES-GCM with a 128-bit tag on raw
  key, IV and data, PBKDF2, \<open>JSON.parse\<close> (\<open>None\<close> when it throws),
  \<open>JSON.stringify\<close>, the conversion of a value that is not a string to a string,
  and the global \<open>fetch\<close>.
\<close>

record platform =
  webcrypto :: bool
  aes_gcm_encrypt :: "byte list \<Rightarrow> byte list \<Rightarrow> byte list \<Rightarrow> byte list option"
  aes_gcm_decrypt :: "byte list \<Rightarrow> byte list \<Rightarrow> byte list \<Rightarrow> byte list option"
  pbkdf2 :: "hash_alg \<Rightarrow> byte list \<Rightarrow> byte list \<Rightarrow> nat \<Rightarrow> nat \<Rightarrow> byte list"
  JSON_parse :: "jsstring \<Rightarrow> json option"
  JSON_stringify :: "json \<Rightarrow> jsstring"
  ToString :: "json \<Rightarrow> jsstring"
  network :: "jsstring \<Rightarrow> request_init \<Rightarrow> response result"

text \<open>
  What changes while the code runs: \<open>localStorage\<close>, the random bytes that
  \<open>crypto.getRandomValues\<close> and \<open>crypto.subtle.generateKey\<close> will deliver, the
  numbers that \<open>Math.random\<close> will deliver, and the requests handed to the network.
\<close>

record world =
  localStorage :: "jsstring \<rightharpoonup> jsstring"
  entropy :: "nat \<Rightarrow> byte"
  random_doubles :: "nat \<Rightarrow> real"
  sent :: "(jsstring \<times> request_init) list"

definition getRandomValues :: "world \<Rightarrow> nat \<Rightarrow> byte list \<times> world" where
  "getRandomValues w n =
     (map (entropy w) [0..<n], w\<lparr>entropy := \<lambda>i. entropy w (i + n)\<rparr>)"


text \<open>
  \<open>crypto.subtle.generateKey\<close> for AES-GCM of length 256 followed by
  \<open>exportKey('raw', key)\<close>: 32 random bytes.
\<close>

definition subtle_generateKey :: "platform \<Rightarrow> world \<Rightarrow> byte list result \<times> world" where
  "subtle_generateKey P w =
     (if \<not> webcrypto P then (Inl TypeError, w)
      else (let (raw, w') = getRandomValues w 32 in (Inr raw, w')))"

text \<open>\<open>crypto.subtle.importKey('raw', ...)\<close> for AES-GCM: 128, 192 or 256 bits.\<close>

definition subtle_importKey :: "platform \<Rightarrow> byte list \<Rightarrow> byte list result" where
  "subtle_importKey P raw =
     (if \<not> webcrypto P then Inl TypeError
      else if length raw = 16 \<or> length raw = 24 \<or> length raw = 32 then Inr raw
      else Inl DataError)"

definition subtle_encrypt :: "platform \<Rightarrow> byte list \<Rightarrow> byte list \<Rightarrow> byte list \<Rightarrow> byte list result" where
  "subtle_encrypt P key iv data =
     (if \<not> webcrypto P then Inl TypeError
      else (case aes_gcm_encrypt P key iv data of
              None \<Rightarrow> Inl OperationError | Some c \<Rightarrow> Inr c))"

definition subtle_decrypt :: "platform \<Rightarrow> byte list \<Rightarrow> byte list \<Rightarrow> byte list \<Rightarrow> byte list result" where
  "subtle_decrypt P key iv data =
     (if \<not> webcrypto P then Inl TypeError
      else (case aes_gcm_decrypt P key iv data of
              None \<Rightarrow> Inl OperationError | Some d \<Rightarrow> Inr d))"

text \<open>\<open>importKey('raw', data, 'PBKDF2', ...)\<close> takes a password of any length.\<close>

definition subtle_importKey_PBKDF2 :: "platform \<Rightarrow> byte list \<Rightarrow> byte list result" where
  "subtle_importKey_PBKDF2 P raw = (if \<not> webcrypto P then Inl TypeError else Inr raw)"

definition subtle_deriveBits ::
  "platform \<Rightarrow> hash_alg \<Rightarrow> byte list \<Rightarrow> byte list \<Rightarrow> nat \<Rightarrow> nat \<Rightarrow> byte list result" where
  "subtle_deriveBits P h keyMaterial salt iterations len =
     (if \<not> webcrypto P then Inl TypeError
      else if len mod 8 \<noteq> 0 \<or> iterations = 0 then Inl OperationError
      else Inr (pbkdf2 P h keyMaterial salt iterations len))"

text \<open>\<open>new Uint8Array(n)\<close> and \<open>target.set(source, offset)\<close>.\<close>

definition new_Uint8Array :: "nat \<Rightarrow> byte list" where
  "new_Uint8Array n = replicate n 0"

definition uint8_set :: "byte list \<Rightarrow> byte list \<Rightarrow> nat \<Rightarrow> byte list result" where
  "uint8_set target source offset =
     (if length target < offset + length source then Inl RangeError
      else Inr (take offset target @ source @ drop (offset + length source) target))"

section \<open>\<open>CryptoManager\<close>\<close>

definition ivLength :: nat where
  "ivLength = 12"

definition isSupported :: "platform \<Rightarrow> bool" where
  "isSupported P = webcrypto P"

definition generateKey :: "platform \<Rightarrow> world \<Rightarrow> jsstring result \<times> world" where
  "generateKey P w =
     (let (exported, w') = subtle_generateKey P w in
      (rethrow_as KeyGenerationFailed (bind_result exported arrayBufferToBase64), w'))"

definition importKey :: "platform \<Rightarrow> jsstring \<Rightarrow> byte list result" where
  "importKey P base64Key =
     rethrow_as InvalidKeyFormat
       (bind_result (base64ToArrayBuffer base64Key) (subtle_importKey P))"

definition generateIV :: "world \<Rightarrow> byte list \<times> world" where
  "generateIV w = getRandomValues w ivLength"

text \<open>
  \<open>encrypt\<close>: everything is inside one \<open>try\<close>, so a failure of \<open>importKey\<close> is
  rethrown with the message of \<open>encrypt\<close>. The IV is drawn after the key is imported.
\<close>

definition encrypt :: "platform \<Rightarrow> world \<Rightarrow> jsstring \<Rightarrow> jsstring \<Rightarrow> jsstring result \<times> world" where
  "encrypt P w plaintext base64Key =
     (case importKey P base64Key of
        Inl e \<Rightarrow> (Inl EncryptionFailed, w)
      | Inr key \<Rightarrow>
          (let (iv, w') = generateIV w;
               data = TextEncoder_encode plaintext
           in (rethrow_as EncryptionFailed
                 (bind_result (subtle_encrypt P key iv data) (\<lambda>encrypted.
                  bind_result (uint8_set (new_Uint8Array (length iv + length encrypted)) iv 0)
                    (\<lambda>combined.
                  bind_result (uint8_set combined encrypted (length iv))
                    arrayBufferToBase64))),
               w')))"

definition decrypt :: "platform \<Rightarrow> jsstring \<Rightarrow> jsstring \<Rightarrow> jsstring result" where
  "decrypt P encryptedBase64 base64Key =
     rethrow_as DecryptionFailed
       (bind_result (importKey P base64Key) (\<lambda>key.
        bind_result (base64ToArrayBuffer encryptedBase64) (\<lambda>combined.
          (let iv = take ivLength combined;
               ciphertext = drop ivLength combined
           in bind_result (subtle_decrypt P key iv ciphertext) (\<lambda>decrypted.
              Inr (TextDecoder_decode decrypted))))))"

definition encryptObject :: "platform \<Rightarrow> world \<Rightarrow> json \<Rightarrow> jsstring \<Rightarrow> jsstring result \<times> world" where
  "encryptObject P w obj base64Key = encrypt P w (JSON_stringify P obj) base64Key"

definition decryptObject :: "platform \<Rightarrow> jsstring \<Rightarrow> jsstring \<Rightarrow> json result" where
  "decryptObject P encryptedBase64 base64Key =
     bind_result (decrypt P encryptedBase64 base64Key) (\<lambda>json.
       case JSON_parse P json of None \<Rightarrow> Inl SyntaxError | Some v \<Rightarrow> Inr v)"







definition deriveKeyFromSeed :: "platform \<Rightarrow> jsstring \<Rightarrow> jsstring result" where
  "deriveKeyFromSeed P seedPhrase =
     (let data = TextEncoder_encode seedPhrase in
      bind_result (subtle_importKey_PBKDF2 P data) (\<lambda>keyMaterial.
      bind_result
        (subtle_deriveBits P SHA_256 keyMaterial
           (TextEncoder_encode (ascii ''sb_finance_salt_2024'')) 100000 256)
        arrayBufferToBase64))"

section \<open>\<open>EncryptionStorage\<close>\<close>

definition encryption_key :: jsstring where
  "encryption_key = ascii ''encryption_key''"

definition seed_phrase :: jsstring where
  "seed_phrase = ascii ''seed_phrase''"

text \<open>
  \<open>localStorage\<close>: \<open>getItem\<close> gives \<open>null\<close> (\<open>None\<close>) for a name that is not
  there. A store that is full or unavailable is not modelled.
\<close>

definition getItem :: "world \<Rightarrow> jsstring \<Rightarrow> jsstring option" where
  "getItem w name = localStorage w name"

definition setItem :: "world \<Rightarrow> jsstring \<Rightarrow> jsstring \<Rightarrow> world" where
  "setItem w name v = w\<lparr>localStorage := (localStorage w)(name \<mapsto> v)\<rparr>"

definition removeItem :: "world \<Rightarrow> jsstring \<Rightarrow> world" where
  "removeItem w name = w\<lparr>localStorage := (localStorage w)(name := None)\<rparr>"

text \<open>The branch \<open>if (!key)\<close> of \<open>getOrCreateKey\<close>: generate, store, return.\<close>

definition create_key :: "platform \<Rightarrow> world \<Rightarrow> jsstring result \<times> world" where
  "create_key P w =
     (case generateKey P w of
        (Inl e, w') \<Rightarrow> (Inl e, w')
      | (Inr key, w') \<Rightarrow> (Inr key, setItem w' encryption_key key))"

text \<open>\<open>!key\<close> holds when \<open>getItem\<close> returned \<open>null\<close> and when it returned \<open>''\<close>.\<close>

definition getOrCreateKey :: "platform \<Rightarrow> world \<Rightarrow> jsstring result \<times> world" where
  "getOrCreateKey P w =
     (case getItem w encryption_key of
        None \<Rightarrow> create_key P w
      | Some key \<Rightarrow> if key = [] then create_key P w else (Inr key, w))"

definition saveKey :: "world \<Rightarrow> jsstring \<Rightarrow> world" where
  "saveKey w key = setItem w encryption_key key"

definition clearKey :: "world \<Rightarrow> world" where
  "clearKey w = removeItem (removeItem w encryption_key) seed_phrase"

definition saveSeedPhrase :: "world \<Rightarrow> jsstring \<Rightarrow> world" where
  "saveSeedPhrase w seedPhrase = setItem w seed_phrase seedPhrase"

definition getSeedPhrase :: "world \<Rightarrow> jsstring option" where
  "getSeedPhrase w = getItem w seed_phrase"

definition hasKey :: "world \<Rightarrow> bool" where
  "hasKey w = (getItem w encryption_key \<noteq> None)"

section \<open>\<open>EncryptedFetch\<close>\<close>

text \<open>
  Reading a property of a parsed value throws on \<open>null\<close>, finds the member of an
  object, and is \<open>undefined\<close> (\<open>None\<close>) otherwise: no string, number, boolean or array
  has a property \<open>encrypted\<close> or \<open>data\<close>.
\<close>

definition get_property :: "json \<Rightarrow> jsstring \<Rightarrow> json option result" where
  "get_property v name =
     (case v of JNull \<Rightarrow> Inl TypeError | JObject members \<Rightarrow> Inr (map_of members name)
      | _ \<Rightarrow> Inr None)"

definition truthy :: "json \<Rightarrow> bool" where
  "truthy v =
     (case v of JNull \<Rightarrow> False | JBool b \<Rightarrow> b | JNumber n \<Rightarrow> n \<noteq> 0
      | JString s \<Rightarrow> s \<noteq> [] | JArray _ \<Rightarrow> True | JObject _ \<Rightarrow> True)"

definition to_string :: "platform \<Rightarrow> json \<Rightarrow> jsstring" where
  "to_string P v = (case v of JString s \<Rightarrow> s | _ \<Rightarrow> ToString P v)"

text \<open>\<open>s.includes(sub)\<close>.\<close>

fun string_includes :: "jsstring \<Rightarrow> jsstring \<Rightarrow> bool" where
  "string_includes [] sub = (sub = [])"
| "string_includes (c # cs) sub = (take (length sub) (c # cs) = sub \<or> string_includes cs sub)"

text \<open>\<open>response.json()\<close>: rejects when the body was read before, and reads it.\<close>

definition response_json :: "platform \<Rightarrow> response \<Rightarrow> json result \<times> response" where
  "response_json P r =
     (if bodyUsed r then (Inl TypeError, r)
      else ((case JSON_parse P (body_text r) of None \<Rightarrow> Inl SyntaxError | Some v \<Rightarrow> Inr v),
            r\<lparr>bodyUsed := True\<rparr>))"

text \<open>
  \<open>new Response(text, {status, statusText, headers})\<close>: a status outside 200..599 is
  a \<open>RangeError\<close>, a status that allows no body a \<open>TypeError\<close>.
\<close>

definition new_Response :: "jsstring \<Rightarrow> nat \<Rightarrow> jsstring \<Rightarrow> (jsstring \<rightharpoonup> jsstring) \<Rightarrow> response result" where
  "new_Response text st stText hdrs =
     (if st < 200 \<or> 599 < st then Inl RangeError
      else if st = 204 \<or> st = 205 \<or> st = 304 then Inl TypeError
      else Inr \<lparr>status = st, statusText = stText, resp_headers = hdrs,
                body_text = text, bodyUsed = False\<rparr>)"

text \<open>The global \<open>fetch\<close>: the request goes out, the network answers.\<close>

definition global_fetch :: "platform \<Rightarrow> world \<Rightarrow> jsstring \<Rightarrow> request_init \<Rightarrow> response result \<times> world" where
  "global_fetch P w url options = (network P url options, w\<lparr>sent := sent w @ [(url, options)]\<rparr>)"

record encrypted_fetch =
  encryptionEnabled :: bool

definition new_EncryptedFetch :: encrypted_fetch where
  "new_EncryptedFetch = \<lparr>encryptionEnabled = True\<rparr>"

definition setEnabled :: "encrypted_fetch \<Rightarrow> bool \<Rightarrow> encrypted_fetch" where
  "setEnabled this enabled = this\<lparr>encryptionEnabled := enabled\<rparr>"

text \<open>
  \<open>JSON.stringify({encrypted: true, data: encrypted})\<close>, and the two assignments that
  follow it: the body, and \<open>Content-Type\<close> in \<open>options.headers\<close> (made if missing).
  The source assigns into the caller's \<open>options\<close>; here the rewritten options are
  what goes to the network.
\<close>

definition transport_form :: "platform \<Rightarrow> jsstring \<Rightarrow> jsstring" where
  "transport_form P encrypted =
     JSON_stringify P
       (JObject [(ascii ''encrypted'', JBool True), (ascii ''data'', JString encrypted)])"

definition rewrite_request :: "platform \<Rightarrow> request_init \<Rightarrow> jsstring \<Rightarrow> request_init" where
  "rewrite_request P options encrypted =
     options\<lparr>body := StringBody (transport_form P encrypted),
             headers := Some ((case headers options of None \<Rightarrow> Map.empty | Some h \<Rightarrow> h)
                              (ascii ''Content-Type'' \<mapsto> ascii ''application/json''))\<rparr>"

text \<open>
  The request half of \<open>fetch\<close>. \<open>originalBody && typeof originalBody === 'string'\<close>
  holds for a string that is not empty. Inside the \<open>try\<close> are \<open>JSON.parse\<close> and
  \<open>encryptObject\<close>: if either throws, the \<open>catch\<close> encrypts the body as text, and a
  failure there leaves \<open>fetch\<close>.
\<close>

definition encrypt_request :: "platform \<Rightarrow> world \<Rightarrow> request_init \<Rightarrow> jsstring \<Rightarrow> request_init result \<times> world" where
  "encrypt_request P w options key =
     (case body options of
        StringBody originalBody \<Rightarrow>
          if originalBody = [] then (Inr options, w)
          else
            (let (attempt, w1) =
                   (case JSON_parse P originalBody of
                      None \<Rightarrow> (Inl SyntaxError, w)
                    | Some json \<Rightarrow> encryptObject P w json key)
             in case attempt of
                  Inr encrypted \<Rightarrow> (Inr (rewrite_request P options encrypted), w1)
                | Inl _ \<Rightarrow>
                    (let (r, w2) = encrypt P w1 originalBody key
                     in (bind_result r (\<lambda>encrypted. Inr (rewrite_request P options encrypted)),
                         w2)))
      | _ \<Rightarrow> (Inr options, w))"

text \<open>
  The response half of \<open>fetch\<close>. The body is read with \<open>response.json()\<close> whenever
  the content type includes \<open>application/json\<close>; the object returned in the end is
  either a new \<open>Response\<close> or the one whose body was just read.
\<close>

definition decrypt_response :: "platform \<Rightarrow> jsstring \<Rightarrow> response \<Rightarrow> response result" where
  "decrypt_response P key resp =
     (case resp_headers resp (ascii ''content-type'') of
        None \<Rightarrow> Inr resp
      | Some ct \<Rightarrow>
          if \<not> string_includes ct (ascii ''application/json'') then Inr resp
          else
            (let (parsed, resp') = response_json P resp in
             bind_result parsed (\<lambda>data.
             bind_result (get_property data (ascii ''encrypted'')) (\<lambda>enc.
               case enc of
                 None \<Rightarrow> Inr resp'
               | Some e \<Rightarrow>
                   if \<not> truthy e then Inr resp'
                   else bind_result (get_property data (ascii ''data'')) (\<lambda>d.
                     case d of
                       None \<Rightarrow> Inr resp'
                     | Some payload \<Rightarrow>
                         if \<not> truthy payload then Inr resp'
                         else bind_result (decryptObject P (to_string P payload) key)
                           (\<lambda>decrypted.
                              new_Response (JSON_stringify P decrypted) (status resp')
                                (statusText resp') (resp_headers resp')))))))"

definition fetch ::
  "platform \<Rightarrow> encrypted_fetch \<Rightarrow> world \<Rightarrow> jsstring \<Rightarrow> request_init \<Rightarrow> response result \<times> world" where
  "fetch P this w url options =
     (if \<not> encryptionEnabled this then global_fetch P w url options
      else
        (case getOrCreateKey P w of
           (Inl e, w1) \<Rightarrow> (Inl e, w1)
         | (Inr key, w1) \<Rightarrow>
             (case encrypt_request P w1 options key of
                (Inl e, w2) \<Rightarrow> (Inl e, w2)
              | (Inr options', w2) \<Rightarrow>
                  (let (r, w3) = global_fetch P w2 url options'
                   in (bind_result r (decrypt_response P key), w3)))))"

section \<open>What the code expects of the platform\<close>

text \<open>
  AES-GCM as WebCrypto specifies it: with a key of 128, 192 or 256 bits and a 12-byte
  IV, encryption succeeds and appends a 16-byte tag, and decryption with the same key
  and IV gives the data back.
\<close>

definition aead_contract :: "platform \<Rightarrow> bool" where
  "aead_contract P =
     (webcrypto P \<and>
      (\<forall>key iv data.
         (length key = 16 \<or> length key = 24 \<or> length key = 32) \<and> length iv = 12 \<longrightarrow>
         (\<exists>c. aes_gcm_encrypt P key iv data = Some c \<and> length c = length data + 16 \<and>
              aes_gcm_decrypt P key iv c = Some data)))"

text \<open>PBKDF2 delivers as many bits as were asked for.\<close>

definition pbkdf2_contract :: "platform \<Rightarrow> bool" where
  "pbkdf2_contract P =
     (webcrypto P \<and>
      (\<forall>h password salt iterations len.
         len mod 8 = 0 \<longrightarrow> length (pbkdf2 P h password salt iterations len) = len div 8))"

text \<open>
  The specification's notion of a valid payload (4.4: the plaintext is a UTF-8
  encoded JSON document): the bytes are well-formed UTF-8, which is to say that
  decoding and encoding them again gives them back, and \<open>JSON.parse\<close> accepts the
  text.
\<close>

definition utf8_valid :: "byte list \<Rightarrow> bool" where
  "utf8_valid bytes =
     (map of_nat (concat (map utf8_bytes (utf8_decode 0 0 0 0x80 0xBF (map unat bytes)))) = bytes)"

definition valid_json_document :: "platform \<Rightarrow> byte list \<Rightarrow> bool" where
  "valid_json_document P bytes =
     (utf8_valid bytes \<and> JSON_parse P (TextDecoder_decode bytes) \<noteq> None)"

text \<open>\<open>encrypt\<close> and then \<open>decrypt\<close> with the same key.\<close>

definition roundtrip :: "platform \<Rightarrow> world \<Rightarrow> jsstring \<Rightarrow> jsstring \<Rightarrow> jsstring result" where
  "roundtrip P w plaintext base64Key =
     bind_result (fst (encrypt P w plaintext base64Key)) (\<lambda>envelope.
       decrypt P envelope base64Key)"



section \<open>A platform to run the code on\<close>

text \<open>
  Concrete stand-ins for the browser, used to run the definitions on inputs: a cipher
  that copies the data and appends a tag of zeros, a key derivation that returns
  zeros, a JSON reader that knows \<open>{}\<close>, \<open>null\<close>, \<open>42\<close>, a string in quotes
  without escapes, and the transport form, and a network that answers every request
  with the JSON document \<open>{}\<close>.
\<close>

definition test_encrypt :: "byte list \<Rightarrow> byte list \<Rightarrow> byte list \<Rightarrow> byte list option" where
  "test_encrypt key iv data = Some (data @ replicate 16 0)"

definition test_decrypt :: "byte list \<Rightarrow> byte list \<Rightarrow> byte list \<Rightarrow> byte list option" where
  "test_decrypt key iv c =
     (if 16 \<le> length c \<and> drop (length c - 16) c = replicate 16 0
      then Some (take (length c - 16) c) else None)"

definition envelope_prefix :: jsstring where
  \<open>envelope_prefix = ascii ''{"encrypted":true,"data":"''\<close>

definition envelope_suffix :: jsstring where
  \<open>envelope_suffix = ascii ''"}''\<close>

definition test_parse :: "jsstring \<Rightarrow> json option" where
  "test_parse s =
     (if s = ascii ''{}'' then Some (JObject [])
      else if s = ascii ''null'' then Some JNull
      else if s = ascii ''42'' then Some (JNumber 42)
      else if 2 \<le> length s \<and> take 1 s = [34] \<and> drop (length s - 1) s = [34] \<and>
              list_all (\<lambda>c. c \<noteq> 34 \<and> c \<noteq> 92 \<and> 32 \<le> unat c)
                (take (length s - 2) (drop 1 s))
      then Some (JString (take (length s - 2) (drop 1 s)))
      else if length envelope_prefix + length envelope_suffix \<le> length s \<and>
              take (length envelope_prefix) s = envelope_prefix \<and>
              drop (length s - length envelope_suffix) s = envelope_suffix
      then Some (JObject
             [(ascii ''encrypted'', JBool True),
              (ascii ''data'',
               JString (take (length s - length envelope_prefix - length envelope_suffix)
                          (drop (length envelope_prefix) s)))])
      else None)"

definition test_stringify :: "json \<Rightarrow> jsstring" where
  "test_stringify v =
     (case v of
        JNumber n \<Rightarrow> ascii ''42''
      | JObject members \<Rightarrow>
          (case map_of members (ascii ''data'') of
             Some (JString d) \<Rightarrow> envelope_prefix @ d @ envelope_suffix
           | _ \<Rightarrow> ascii ''{}'')
      | _ \<Rightarrow> ascii ''null'')"

definition json_response :: "jsstring \<Rightarrow> response" where
  "json_response text =
     \<lparr>status = 200, statusText = ascii ''OK'',
      resp_headers = [ascii ''content-type'' \<mapsto> ascii ''application/json''],
      body_text = text, bodyUsed = False\<rparr>"

definition test_platform :: platform where
  "test_platform =
     \<lparr>webcrypto = True,
      aes_gcm_encrypt = test_encrypt,
      aes_gcm_decrypt = test_decrypt,
      pbkdf2 = (\<lambda>h password salt iterations len. replicate (len div 8) 0),
      JSON_parse = test_parse,
      JSON_stringify = test_stringify,
      ToString = (\<lambda>v. ascii ''[object Object]''),
      network = (\<lambda>url options. Inr (json_response (ascii ''{}'')))\<rparr>"

definition test_world :: world where
  "test_world =
     \<lparr>localStorage = Map.empty,
      entropy = (\<lambda>i. of_nat (7 * i + 1)),
      random_doubles = (\<lambda>i. real (i mod 4) / 4),
      sent = []\<rparr>"

text \<open>The key that \<open>generateKey\<close> returns on this platform in this world.\<close>

definition test_key :: jsstring where
  "test_key = ascii ''AQgPFh0kKzI5QEdOVVxjanF4f4aNlJuiqbC3vsXM09o=''"

definition no_options :: request_init where
  "no_options = \<lparr>body = NoBody, headers = None, passthrough = []\<rparr>"

text \<open>What \<open>encrypt\<close> returns for the text \<open>hello\<close> with that key in this world.\<close>

definition hello_envelope :: jsstring where
  "hello_envelope = ascii ''AQgPFh0kKzI5QEdOaGVsbG8AAAAAAAAAAAAAAAAAAAAA''"

text \<open>
  The base64 of that IV, the three bytes \<open>22 FF 22\<close> and a tag of zeros: in quotes,
  a byte that is not UTF-8.
\<close>

definition garbled_envelope :: jsstring where
  "garbled_envelope = ascii ''AQgPFh0kKzI5QEdOIv8iAAAAAAAAAAAAAAAAAAAAAA==''"

text \<open>
  Variations: a network that answers in the transport form with a payload that does
  not decrypt, a page without \<open>crypto.subtle\<close>, a store that holds the key, and a
  request whose body is not a string.
\<close>

definition enveloped_response :: response where
  "enveloped_response = json_response (envelope_prefix @ ascii ''AAAA'' @ envelope_suffix)"

definition enveloping_platform :: platform where
  "enveloping_platform = test_platform\<lparr>network := (\<lambda>url options. Inr enveloped_response)\<rparr>"

definition insecure_platform :: platform where
  "insecure_platform = test_platform\<lparr>webcrypto := False\<rparr>"

definition stored_world :: world where
  "stored_world = saveKey test_world test_key"

definition blob_options :: request_init where
  "blob_options = no_options\<lparr>body := OtherBody [1, 2, 3]\<rparr>"

section \<open>Auxiliary notions of the proofs\<close>

text \<open>The sextets of a byte sequence and the number of padding characters.\<close>

fun sextets :: "nat list \<Rightarrow> nat list" where
  "sextets (a # b # c # rest) =
     (a div 4) # ((a mod 4) * 16 + b div 16) # ((b mod 16) * 4 + c div 64) # (c mod 64) #
     sextets rest"
| "sextets [a, b] = [a div 4, (a mod 4) * 16 + b div 16, (b mod 16) * 4]"
| "sextets [a] = [a div 4, (a mod 4) * 16]"
| "sextets [] = []"

fun npad :: "nat list \<Rightarrow> nat" where
  "npad (a # b # c # rest) = npad rest"
| "npad [a, b] = 1"
| "npad [a] = 2"
| "npad [] = 0"

text \<open>A Unicode scalar value: a code point that is not a surrogate.\<close>

definition is_scalar :: "nat \<Rightarrow> bool" where
  "is_scalar cp = (cp < 0x110000 \<and> (cp < 0xD800 \<or> 0xDFFF < cp))"

section \<open>Base64 and back\<close>

lemma unat_b64_char:
  "unat (b64_char n) =
     (if n < 26 then 65 + n else if n < 52 then 71 + n else if n < 62 then n - 4
      else if n = 62 then 43 else 47)"
proof -
  have u: "unat (of_nat m :: code_unit) = m" if "m < 65536" for m
    using that by (simp add: unat_of_nat)
  show ?thesis
    by (simp add: b64_char_def u del: of_nat_add of_nat_diff)
qed

lemma b64_val_char: "n < 64 \<Longrightarrow> b64_val (b64_char n) = Some n"
  by (simp add: b64_val_def unat_b64_char Let_def) arith

lemma b64_char_not_pad: "b64_char n \<noteq> pad"
proof
  assume "b64_char n = pad"
  then have "unat (b64_char n) = 61" by (simp add: pad_def)
  then show False by (simp add: unat_b64_char split: if_splits) arith?
qed

lemma b64_char_not_ws: "\<not> is_ascii_whitespace (b64_char n)"
proof
  assume "is_ascii_whitespace (b64_char n)"
  then have "unat (b64_char n) \<in> {9, 10, 12, 13, 32}"
    by (auto simp: is_ascii_whitespace_def)
  then show False by (simp add: unat_b64_char split: if_splits) arith?
qed

lemma pad_not_ws: "\<not> is_ascii_whitespace pad"
  by (simp add: is_ascii_whitespace_def pad_def)

lemma b64_encode_shape:
  "b64_encode bs = map b64_char (sextets bs) @ replicate (npad bs) pad"
  by (induction bs rule: b64_encode.induct) (simp_all add: numeral_2_eq_2)

lemma npad_le: "npad bs \<le> 2"
  by (induction bs rule: npad.induct) simp_all

lemma length_sextets_npad: "(length (sextets bs) + npad bs) mod 4 = 0"
  by (induction bs rule: sextets.induct) simp_all

lemma length_sextets_mod: "length (sextets bs) mod 4 \<noteq> 1"
  by (induction bs rule: sextets.induct) simp_all

lemma b64_vals_chars: "list_all (\<lambda>v. v < 64) vs \<Longrightarrow> b64_vals (map b64_char vs) = Some vs"
  by (induction vs) (simp_all add: b64_val_char)

lemma split_div: "x < k \<Longrightarrow> (y * k + x) div k = (y::nat)"
  by simp

lemma split_mod: "x < k \<Longrightarrow> (y * k + x) mod k = (x::nat)"
  by simp

lemma hi_lt: "(b::nat) < 256 \<Longrightarrow> b div 16 < 16" "(b::nat) < 256 \<Longrightarrow> b div 64 < 4" "(b::nat) < 256 \<Longrightarrow> b div 4 < 64"
  by simp_all

lemma sextet_lt:
  "(a::nat) mod 4 * 16 + b div 16 < 64" if "b < 256"
proof -
  have "a mod 4 \<le> 3" by simp
  moreover have "b div 16 < 16" using that by simp
  ultimately show ?thesis by linarith
qed

lemma sextet_lt2:
  "(b::nat) mod 16 * 4 + c div 64 < 64" if "c < 256"
proof -
  have "b mod 16 \<le> 15" by simp
  moreover have "c div 64 < 4" using that by simp
  ultimately show ?thesis by linarith
qed

lemma sextet_lt3: "(a::nat) mod 4 * 16 < 64" "(b::nat) mod 16 * 4 < 64"
proof -
  have "a mod 4 \<le> 3" by simp
  then show "a mod 4 * 16 < 64" by linarith
  have "b mod 16 \<le> 15" by simp
  then show "b mod 16 * 4 < 64" by linarith
qed

lemma sextets_bound: "list_all (\<lambda>b. b < 256) bs \<Longrightarrow> list_all (\<lambda>v. v < 64) (sextets bs)"
  by (induction bs rule: sextets.induct) (simp_all add: sextet_lt sextet_lt2 sextet_lt3 hi_lt)

lemma join1: "b < 256 \<Longrightarrow> a div 4 * 4 + (a mod 4 * 16 + b div 16) div 16 = (a::nat)"
  by (simp add: split_div)

lemma join2: "b < 256 \<Longrightarrow> c < 256 \<Longrightarrow> (a mod 4 * 16 + b div 16) mod 16 * 16 + (b mod 16 * 4 + c div 64) div 4 = (b::nat)"
  by (simp add: split_div split_mod)

lemma join3: "c < 256 \<Longrightarrow> (b mod 16 * 4 + c div 64) mod 4 * 64 + c mod 64 = (c::nat)"
  by (simp add: split_mod)

lemma join2': "b < 256 \<Longrightarrow> (a mod 4 * 16 + b div 16) mod 16 * 16 + (b mod 16 * 4) div 4 = (b::nat)"
  by (simp add: split_mod)

lemma join1': "a div 4 * 4 + (a mod 4 * 16) div 16 = (a::nat)"
  by simp

lemma b64_decode_sextets: "list_all (\<lambda>b. b < 256) bs \<Longrightarrow> b64_decode (sextets bs) = bs"
proof (induction bs rule: sextets.induct)
  case (1 a b c rest)
  then have "a < 256" "b < 256" "c < 256" "b64_decode (sextets rest) = rest" by simp_all
  then show ?case
    by (simp only: sextets.simps b64_decode.simps join1 join2 join3)
next
  case (2 a b)
  then have "a < 256" "b < 256" by simp_all
  then show ?case
    by (simp only: sextets.simps b64_decode.simps join1 join2')
next
  case (3 a)
  show ?case
    by (simp only: sextets.simps b64_decode.simps join1')
next
  case 4
  show ?case by simp
qed

lemma strip_padding_padded:
  assumes "xs = [] \<or> last xs \<noteq> pad" and "k \<le> 2"
    and "(length xs + k) mod 4 = 0"
  shows "strip_padding (xs @ replicate k pad) = xs"
proof -
  consider "k = 0" | "k = 1" | "k = 2" using assms(2) by linarith
  then show ?thesis
  proof cases
    case 1
    with assms show ?thesis by (auto simp: strip_padding_def)
  next
    case 2
    with assms(3) have "xs \<noteq> []" by auto
    with 2 assms show ?thesis by (simp add: strip_padding_def butlast_append)
  next
    case 3
    then have r: "replicate k pad = [pad, pad]" by (simp add: numeral_2_eq_2)
    have "strip_padding (xs @ [pad, pad]) = xs"
      using assms(3) 3 by (simp add: strip_padding_def Let_def butlast_append)
    then show ?thesis by (simp only: r)
  qed
qed

lemma last_map_b64_char: "vs \<noteq> [] \<Longrightarrow> last (map b64_char vs) \<noteq> pad"
  by (simp add: last_map b64_char_not_pad)

lemma filter_ws_encoded:
  "filter (\<lambda>c. \<not> is_ascii_whitespace c) (map b64_char vs @ replicate k pad) =
   map b64_char vs @ replicate k pad"
  by (simp add: filter_id_conv b64_char_not_ws pad_not_ws)  

lemma atob_b64_encode:
  assumes "list_all (\<lambda>b. b < 256) bs"
  shows "atob (b64_encode bs) = Inr (map of_nat bs)"
proof -
  let ?vs = "sextets bs"
  have 1: "strip_padding (map b64_char ?vs @ replicate (npad bs) pad) = map b64_char ?vs"
    by (rule strip_padding_padded)
       (use last_map_b64_char [of ?vs] in \<open>auto simp: npad_le length_sextets_npad\<close>)
  have 2: "length (map b64_char ?vs) mod 4 \<noteq> 1"
    using length_sextets_mod [of bs] by simp
  have 3: "b64_vals (map b64_char ?vs) = Some ?vs"
    by (rule b64_vals_chars) (rule sextets_bound [OF assms])
  show ?thesis
    unfolding atob_def b64_encode_shape filter_ws_encoded 1 Let_def
    using 2 3 by (simp add: b64_decode_sextets [OF assms] del: One_nat_def)
qed

lemma binary_of_bytes_eq: "binary_of_bytes bs acc = acc @ map ucast bs"
  by (induction bs arbitrary: acc) simp_all

lemma bytes_of_binary_eq: "bytes_of_binary cs acc = acc @ map ucast cs"
  by (induction cs arbitrary: acc) simp_all

lemma unat_widen: "unat (ucast (b :: byte) :: code_unit) = unat b"
  by (simp add: unsigned_ucast_eq take_bit_nat_eq_self_iff) (use unsigned_less [of b, where 'a=nat] in simp)

lemma byte_lt: "unat (b :: byte) < 256"
  using unsigned_less [of b, where 'a=nat] by simp

lemma narrow_widen: "ucast (ucast (b :: byte) :: code_unit) = b"
  by (simp add: ucast_up_ucast_id is_up)

lemma btoa_binary:
  "btoa (map ucast (bs :: byte list)) = Inr (b64_encode (map unat bs))"
proof -
  have "\<not> list_ex (\<lambda>c. 255 < unat c) (map ucast bs :: jsstring)"
  proof -
    have "unat c \<le> 255" for c :: byte using byte_lt [of c] by simp
    then show ?thesis by (simp add: list_ex_iff unat_widen not_less)
  qed
  then show ?thesis by (simp add: btoa_def unat_widen o_def)
qed

lemma base64_roundtrip_bind:
  "bind_result (arrayBufferToBase64 b) base64ToArrayBuffer = Inr b"
proof -
  have a: "list_all (\<lambda>n. n < 256) (map unat b)"
    by (simp add: list_all_iff byte_lt)
  have "map of_nat (map unat b) = (map ucast b :: jsstring)"
    by (simp add: o_def)
  then show ?thesis
    by (simp add: arrayBufferToBase64_def base64ToArrayBuffer_def bind_result_def
        binary_of_bytes_eq bytes_of_binary_eq btoa_binary atob_b64_encode [OF a]
        narrow_widen o_def)
qed

text \<open>
  C9. The framing helpers round-trip: for every byte sequence, also the empty one and
  those that are not UTF-8, \<open>arrayBufferToBase64\<close> returns a string, and
  \<open>base64ToArrayBuffer\<close> of that string returns the bytes.
\<close>

theorem base64_roundtrip:
  "\<exists>s. arrayBufferToBase64 b = Inr s \<and> base64ToArrayBuffer s = Inr b"
proof -
  have "arrayBufferToBase64 b = Inr (b64_encode (map unat b))"
    by (simp add: arrayBufferToBase64_def binary_of_bytes_eq btoa_binary)
  moreover have "base64ToArrayBuffer (b64_encode (map unat b)) = Inr b"
    using base64_roundtrip_bind [of b]
    by (simp add: arrayBufferToBase64_def binary_of_bytes_eq btoa_binary bind_result_def)
  ultimately show ?thesis by blast
qed

theorem base64_roundtrip_witness:
  "arrayBufferToBase64 [255, 0, 195, 128] = Inr (ascii ''/wDDgA=='') \<and>
   base64ToArrayBuffer (ascii ''/wDDgA=='') = Inr [255, 0, 195, 128]"
proof -
  have e: "arrayBufferToBase64 [255, 0, 195, 128] = Inr (ascii ''/wDDgA=='')"
    by (simp add: arrayBufferToBase64_def btoa_def b64_char_def pad_def ascii_def)
  obtain s where "arrayBufferToBase64 [255, 0, 195, 128] = Inr s"
    and d: "base64ToArrayBuffer s = Inr [255, 0, 195, 128]"
    using base64_roundtrip [of "[255, 0, 195, 128]"] by blast
  with e have "s = ascii ''/wDDgA==''" by simp
  with e d show ?thesis by simp
qed

section \<open>UTF-8 and back\<close>

lemma dec1:
  assumes "c < 0x80"
  shows "utf8_decode 0 0 0 0x80 0xBF (utf8_bytes c @ rest) = c # utf8_decode 0 0 0 0x80 0xBF rest"
  using assms by (simp add: utf8_bytes_def)

lemma cont_mod: "r < 64 \<Longrightarrow> (128 + r) mod 64 = (r::nat)"
  using split_mod [of r 64 2] by simp

lemma dec2:
  assumes "0x80 \<le> c" "c < 0x800"
  shows "utf8_decode 0 0 0 0x80 0xBF (utf8_bytes c @ rest) = c # utf8_decode 0 0 0 0x80 0xBF rest"
proof -
  define q where "q = c div 64"
  define r where "r = c mod 64"
  have c: "q * 64 + r = c" by (simp add: q_def r_def)
  have q: "2 \<le> q" "q < 32" using assms by (simp_all add: q_def) 
  have r: "r < 64" by (simp add: r_def)
  have m: "(192 + q) mod 32 = q" using split_mod [of q 32 6] q by simp
  have b: "utf8_bytes c = [192 + q, 128 + r]"
    using assms by (simp add: utf8_bytes_def q_def r_def)
  show ?thesis
    unfolding b using q r by (simp add: m cont_mod c)
qed

lemma dec3:
  assumes "0x800 \<le> c" "c < 0x10000" "c < 0xD800 \<or> 0xDFFF < c"
  shows "utf8_decode 0 0 0 0x80 0xBF (utf8_bytes c @ rest) = c # utf8_decode 0 0 0 0x80 0xBF rest"
proof -
  define p where "p = c div 4096"
  define q where "q = c div 64 mod 64"
  define r where "r = c mod 64"
  have p': "p = c div 64 div 64"
    unfolding p_def by (simp add: div_mult2_eq [symmetric])
  have c64: "c div 64 = p * 64 + q"
    unfolding p' q_def by simp
  have c: "(p * 64 + q) * 64 + r = c"
    unfolding c64 [symmetric] by (simp add: r_def)
  have p: "p < 16" using assms by (simp add: p_def)
  have q: "q < 64" by (simp add: q_def)
  have r: "r < 64" by (simp add: r_def)
  have lo: "32 \<le> q" if "p = 0"
  proof -
    have "32 \<le> c div 64" using assms(1) by simp
    with that show ?thesis by (simp add: c64)
  qed
  have hi: "q < 32" if "p = 13"
  proof -
    have e: "c = 53248 + 64 * q + r" using c that by simp
    then have "c \<le> 57343" using q r by linarith
    with assms(3) have "c < 55296" by linarith
    with e show ?thesis by linarith
  qed
  have m: "(224 + p) mod 16 = p" using split_mod [of p 16 14] p by simp
  have b: "utf8_bytes c = [224 + p, 128 + q, 128 + r]"
    using assms by (simp add: utf8_bytes_def p_def q_def r_def)
  show ?thesis
    unfolding b using p q r lo hi c by (auto simp add: m cont_mod Let_def)
qed

lemma dec4:
  assumes "0x10000 \<le> c" "c < 0x110000"
  shows "utf8_decode 0 0 0 0x80 0xBF (utf8_bytes c @ rest) = c # utf8_decode 0 0 0 0x80 0xBF rest"
proof -
  define p where "p = c div 4096 mod 64"
  define q where "q = c div 64 mod 64"
  define r where "r = c mod 64"
  define o' where "o' = c div 262144"
  have d1: "c div 4096 = c div 64 div 64"
    by (simp add: div_mult2_eq [symmetric])
  have d2: "o' = c div 4096 div 64"
    unfolding o'_def by (simp add: div_mult2_eq [symmetric])
  have c4096: "c div 4096 = o' * 64 + p"
    unfolding d2 p_def by simp
  have c64: "c div 64 = (o' * 64 + p) * 64 + q"
    unfolding c4096 [symmetric] d1 q_def by simp
  have c: "((o' * 64 + p) * 64 + q) * 64 + r = c"
    unfolding c64 [symmetric] by (simp add: r_def)
  have o: "o' \<le> 4" using assms by (simp add: o'_def)
  have p: "p < 64" by (simp add: p_def)
  have q: "q < 64" by (simp add: q_def)
  have r: "r < 64" by (simp add: r_def)
  have lo: "16 \<le> p" if "o' = 0"
  proof -
    have "16 \<le> c div 4096" using assms(1) by simp
    with that show ?thesis by (simp add: c4096)
  qed
  have hi: "p < 16" if "o' = 4"
  proof -
    have "c div 4096 < 272" using assms(2) by simp
    with that show ?thesis by (simp add: c4096)
  qed
  have m: "(240 + o') mod 8 = o'" using split_mod [of o' 8 30] o by simp
  have b: "utf8_bytes c = [240 + o', 128 + p, 128 + q, 128 + r]"
    using assms by (simp add: utf8_bytes_def o'_def p_def q_def r_def)
  show ?thesis
    unfolding b using o p q r lo hi c by (auto simp add: m cont_mod Let_def)
qed

lemma utf8_decode_bytes:
  assumes "is_scalar c"
  shows "utf8_decode 0 0 0 0x80 0xBF (utf8_bytes c @ rest) = c # utf8_decode 0 0 0 0x80 0xBF rest"
proof -
  consider "c < 0x80" | "0x80 \<le> c" "c < 0x800" | "0x800 \<le> c" "c < 0x10000"
    | "0x10000 \<le> c" by linarith
  then show ?thesis
  proof cases
    case 1 then show ?thesis by (rule dec1)
  next
    case 2 then show ?thesis by (rule dec2)
  next
    case 3 with assms show ?thesis by (intro dec3) (simp_all add: is_scalar_def)
  next
    case 4 with assms show ?thesis by (intro dec4) (simp_all add: is_scalar_def)
  qed
qed

lemma utf8_decode_concat:
  "list_all is_scalar cs \<Longrightarrow> utf8_decode 0 0 0 0x80 0xBF (concat (map utf8_bytes cs)) = cs"
  by (induction cs) (simp_all add: utf8_decode_bytes)

lemma utf8_bytes_lt: "is_scalar c \<Longrightarrow> list_all (\<lambda>b. b < 256) (utf8_bytes c)"
proof -
  assume "is_scalar c"
  then have c: "c < 0x110000" by (simp add: is_scalar_def)
  have k: "(128::nat) + x mod 64 < 256" for x
  proof -
    have "x mod 64 < 64" by simp
    then show ?thesis by linarith
  qed
  have a: "c < 0x800 \<Longrightarrow> 192 + c div 64 < 256"
  proof -
    assume "c < 0x800" then have "c div 64 < 32" by simp
    then show ?thesis by linarith
  qed
  have b: "c < 0x10000 \<Longrightarrow> 224 + c div 4096 < 256"
  proof -
    assume "c < 0x10000" then have "c div 4096 < 16" by simp
    then show ?thesis by linarith
  qed
  have d: "240 + c div 262144 < 256"
  proof -
    have "c div 262144 < 5" using c by simp
    then show ?thesis by linarith
  qed
  show ?thesis
    using a b d by (simp add: utf8_bytes_def k)
qed

lemma code_unit_lt: "unat (c :: code_unit) < 65536"
  using unsigned_less [of c, where 'a=nat] by simp

lemma bmp_scalar_is_scalar: "is_scalar (bmp_scalar c)"
  using code_unit_lt [of c]
  by (auto simp: is_scalar_def bmp_scalar_def is_lead_def is_trail_def)

lemma pair_scalar_bounds:
  assumes "is_lead c" "is_trail d"
  shows "0x10000 \<le> pair_scalar c d" "pair_scalar c d < 0x110000"
proof -
  define a where "a = unat c - 0xD800"
  define b where "b = unat d - 0xDC00"
  have a: "a < 0x400" using assms(1) by (simp add: a_def is_lead_def) linarith
  have b: "b < 0x400" using assms(2) by (simp add: b_def is_trail_def) linarith
  have e: "pair_scalar c d = 0x10000 + a * 0x400 + b"
    by (simp add: pair_scalar_def a_def b_def)
  show "0x10000 \<le> pair_scalar c d" unfolding e by simp
  show "pair_scalar c d < 0x110000" unfolding e using a b by linarith
qed

lemma pair_scalar_is_scalar: "is_lead c \<Longrightarrow> is_trail d \<Longrightarrow> is_scalar (pair_scalar c d)"
  using pair_scalar_bounds [of c d] by (simp add: is_scalar_def)

lemma scalar_values_scalar: "list_all is_scalar (scalar_values s)"
  by (induction s rule: scalar_values.induct)
     (simp_all add: bmp_scalar_is_scalar pair_scalar_is_scalar)

lemma utf16_units_bmp:
  "\<not> is_lead c \<Longrightarrow> \<not> is_trail c \<Longrightarrow> utf16_units (bmp_scalar c) = [c]"
  using code_unit_lt [of c] by (simp add: utf16_units_def bmp_scalar_def)

lemma utf16_units_pair:
  assumes "is_lead c" "is_trail d"
  shows "utf16_units (pair_scalar c d) = [c, d]"
proof -
  define a where "a = unat c - 0xD800"
  define b where "b = unat d - 0xDC00"
  have a: "0xD800 + a = unat c" using assms(1) by (simp add: a_def is_lead_def)
  have b: "0xDC00 + b = unat d" "b < 0x400"
    using assms(2) by (simp_all add: b_def is_trail_def) linarith
  have e: "pair_scalar c d - 0x10000 = a * 0x400 + b"
    by (simp add: pair_scalar_def a_def b_def)
  have "(pair_scalar c d - 0x10000) div 0x400 = a" "(pair_scalar c d - 0x10000) mod 0x400 = b"
    unfolding e using b(2) by (simp_all add: split_div split_mod)
  then show ?thesis
    using pair_scalar_bounds [OF assms] a b(1)
    by (simp add: utf16_units_def del: of_nat_add)
qed

lemma utf16_scalar_values:
  "well_formed s \<Longrightarrow> concat (map utf16_units (scalar_values s)) = s"
proof (induction s rule: scalar_values.induct)
  case (1 c d cs)
  show ?case
  proof (cases "is_lead c")
    case True
    with 1 show ?thesis by (simp add: utf16_units_pair)
  next
    case False
    with 1 show ?thesis by (simp add: utf16_units_bmp)
  qed
next
  case (2 c)
  then show ?case by (simp add: utf16_units_bmp)
next
  case 3
  show ?case by simp
qed

lemma bmp_scalar_bom: "bmp_scalar c = 0xFEFF \<longleftrightarrow> c = 0xFEFF"
proof
  assume "bmp_scalar c = 0xFEFF"
  then have "unat c = 0xFEFF" by (simp add: bmp_scalar_def split: if_splits)
  then have "unat c = unat (0xFEFF :: code_unit)" by simp
  then show "c = 0xFEFF" by (simp only: word_unat_eq_iff)
next
  assume "c = 0xFEFF"
  then show "bmp_scalar c = 0xFEFF" by (simp add: bmp_scalar_def is_lead_def is_trail_def)
qed

lemma strip_bom_scalar_values:
  "\<not> starts_with_bom s \<Longrightarrow> strip_bom (scalar_values s) = scalar_values s"
proof (induction s rule: scalar_values.induct)
  case (1 c d cs)
  then have "c \<noteq> 0xFEFF" by (simp add: starts_with_bom_def)
  then have "bmp_scalar c \<noteq> 0xFEFF" by (simp add: bmp_scalar_bom)
  moreover have "pair_scalar c d \<noteq> 0xFEFF" if "is_lead c" "is_trail d"
    using pair_scalar_bounds(1) [OF that] by simp
  ultimately show ?case by (simp add: strip_bom_def)
next
  case (2 c)
  then have "c \<noteq> 0xFEFF" by (simp add: starts_with_bom_def)
  then show ?case by (simp add: strip_bom_def bmp_scalar_bom)
next
  case 3
  show ?case by (simp add: strip_bom_def)
qed

lemma unat_of_nat_byte: "n < 256 \<Longrightarrow> unat (of_nat n :: byte) = n"
  by (simp add: unat_of_nat)

lemma map_unat_of_nat:
  "list_all (\<lambda>b. b < 256) ns \<Longrightarrow> map unat (map of_nat ns :: byte list) = ns"
  by (induction ns) (simp_all add: unat_of_nat_byte)

lemma utf8_bytes_concat_lt:
  "list_all is_scalar cs \<Longrightarrow> list_all (\<lambda>b. b < 256) (concat (map utf8_bytes cs))"
  by (induction cs) (simp_all add: utf8_bytes_lt)

lemma utf8_decode_encode:
  "utf8_decode 0 0 0 0x80 0xBF (map unat (TextEncoder_encode s)) = scalar_values s"
  unfolding TextEncoder_encode_def
  by (simp only: map_unat_of_nat [OF utf8_bytes_concat_lt [OF scalar_values_scalar]]
      utf8_decode_concat [OF scalar_values_scalar])

lemma text_roundtrip:
  assumes "well_formed s" "\<not> starts_with_bom s"
  shows "TextDecoder_decode (TextEncoder_encode s) = s"
  unfolding TextDecoder_decode_def utf8_decode_encode
  by (simp only: strip_bom_scalar_values [OF assms(2)] utf16_scalar_values [OF assms(1)])

section \<open>Encryption and decryption\<close>

lemma length_getRandomValues: "length (fst (getRandomValues w n)) = n"
  by (simp add: getRandomValues_def)

lemma generateIV_length: "length (fst (generateIV w)) = 12"
  by (simp add: generateIV_def ivLength_def getRandomValues_def)

lemma arrayBufferToBase64_Inr: "arrayBufferToBase64 b = Inr (b64_encode (map unat b))"
  by (simp add: arrayBufferToBase64_def binary_of_bytes_eq btoa_binary)

lemma base64ToArrayBuffer_encode: "base64ToArrayBuffer (b64_encode (map unat b)) = Inr b"
  using base64_roundtrip_bind [of b]
  by (simp add: arrayBufferToBase64_Inr bind_result_def)

lemma generateKey_webcrypto:
  assumes "webcrypto P"
  shows "generateKey P w =
    (Inr (b64_encode (map unat (map (entropy w) [0..<32]))), snd (getRandomValues w 32))"
  using assms
  by (simp add: generateKey_def subtle_generateKey_def getRandomValues_def
      bind_result_def rethrow_as_def arrayBufferToBase64_Inr)

lemma generateKey_importKey:
  assumes "webcrypto P" "fst (generateKey P w) = Inr k"
  shows "importKey P k = Inr (map (entropy w) [0..<32])"
proof -
  have "k = b64_encode (map unat (map (entropy w) [0..<32]))"
    using assms(2) by (simp add: generateKey_webcrypto [OF assms(1)])
  then have "base64ToArrayBuffer k = Inr (map (entropy w) [0..<32])"
    by (simp only: base64ToArrayBuffer_encode)
  then show ?thesis
    using assms(1)
    by (simp add: importKey_def bind_result_def rethrow_as_def subtle_importKey_def)
qed

lemma importKey_InrD:
  assumes "importKey P k = Inr raw"
  shows "webcrypto P" "length raw = 16 \<or> length raw = 24 \<or> length raw = 32"
    "base64ToArrayBuffer k = Inr raw"
  using assms
  by (auto simp: importKey_def rethrow_as_def bind_result_def subtle_importKey_def
      split: sum.splits if_splits)

lemma uint8_set_combined:
  "length iv = n \<Longrightarrow>
   bind_result (uint8_set (new_Uint8Array (n + length c)) iv 0)
     (\<lambda>combined. bind_result (uint8_set combined c n) f) = f (iv @ c)"
  by (auto simp add: uint8_set_def new_Uint8Array_def bind_result_def)

lemma encrypt_Inr:
  assumes "importKey P k = Inr raw"
    and "aes_gcm_encrypt P raw (map (entropy w) [0..<12]) (TextEncoder_encode p) = Some c"
  shows "fst (encrypt P w p k) = Inr (b64_encode (map unat (map (entropy w) [0..<12] @ c)))"
proof -
  let ?iv = "map (entropy w) [0..<12]"
  have "bind_result (subtle_encrypt P raw ?iv (TextEncoder_encode p)) (\<lambda>encrypted.
          bind_result (uint8_set (new_Uint8Array (length ?iv + length encrypted)) ?iv 0)
            (\<lambda>combined. bind_result (uint8_set combined encrypted (length ?iv))
               arrayBufferToBase64)) = arrayBufferToBase64 (?iv @ c)"
    using assms(2) importKey_InrD(1) [OF assms(1)]
    by (simp add: subtle_encrypt_def uint8_set_combined [where f = arrayBufferToBase64]
        bind_result_def [of "Inr c"])
  then show ?thesis
    using assms(1)
    by (simp add: encrypt_def generateIV_def ivLength_def getRandomValues_def
        arrayBufferToBase64_Inr rethrow_as_def del: map_append upt_Suc)
qed

lemma decrypt_Inr:
  assumes "importKey P k = Inr raw" "length iv = 12"
    and "aes_gcm_decrypt P raw iv c = Some d"
  shows "decrypt P (b64_encode (map unat (iv @ c))) k = Inr (TextDecoder_decode d)"
  using assms importKey_InrD(1) [OF assms(1)]
  by (simp add: decrypt_def base64ToArrayBuffer_encode ivLength_def subtle_decrypt_def
      rethrow_as_def bind_result_def Let_def del: map_append)

lemma test_platform_aead: "aead_contract test_platform"
  by (simp add: aead_contract_def test_platform_def test_encrypt_def test_decrypt_def)

lemma test_generateKey: "fst (generateKey test_platform test_world) = Inr test_key"
  by (simp add: generateKey_def subtle_generateKey_def getRandomValues_def test_platform_def
      test_world_def bind_result_def rethrow_as_def arrayBufferToBase64_def btoa_def
      b64_char_def pad_def test_key_def ascii_def upt_rec [of _ "numeral _"])

lemma roundtrip_eq:
  assumes "aead_contract P" "fst (generateKey P w0) = Inr k"
  shows "roundtrip P w p k = Inr (TextDecoder_decode (TextEncoder_encode p))"
proof -
  let ?iv = "map (entropy w) [0..<12]"
  let ?raw = "map (entropy w0) [0..<32]"
  have wc: "webcrypto P" using assms(1) by (simp add: aead_contract_def)
  have key: "importKey P k = Inr ?raw"
    by (rule generateKey_importKey [OF wc assms(2)])
  obtain c where enc: "aes_gcm_encrypt P ?raw ?iv (TextEncoder_encode p) = Some c"
    and dec: "aes_gcm_decrypt P ?raw ?iv c = Some (TextEncoder_encode p)"
    using assms(1) unfolding aead_contract_def
    by (metis (no_types, lifting) diff_zero length_map length_upt)
  have "fst (encrypt P w p k) = Inr (b64_encode (map unat (?iv @ c)))"
    by (rule encrypt_Inr [OF key enc])
  moreover have "decrypt P (b64_encode (map unat (?iv @ c))) k =
      Inr (TextDecoder_decode (TextEncoder_encode p))"
    by (rule decrypt_Inr [OF key _ dec]) simp
  ultimately show ?thesis by (simp add: roundtrip_def bind_result_def)
qed

text \<open>
  C1 (amended). For every plaintext that has no unpaired surrogate and does not start
  with \<open>U+FEFF\<close> (the empty string, strings with NUL and strings with multibyte
  characters among them) and every key that \<open>generateKey\<close> returned,
  \<open>decrypt(encrypt(p, k), k)\<close> returns \<open>p\<close>, on a platform whose AES-GCM decrypts
  what it encrypted.
\<close>

theorem roundtrip_well_formed:
  assumes "aead_contract P" "fst (generateKey P w0) = Inr k"
    and "well_formed p" "\<not> starts_with_bom p"
  shows "roundtrip P w p k = Inr p"
  by (simp only: roundtrip_eq [OF assms(1,2)] text_roundtrip [OF assms(3,4)])

theorem roundtrip_well_formed_witness:
  "aead_contract test_platform \<and>
   fst (generateKey test_platform test_world) = Inr test_key \<and>
   well_formed [0x61, 0, 0x431, 0xD83D, 0xDE00] \<and>
   \<not> starts_with_bom [0x61, 0, 0x431, 0xD83D, 0xDE00] \<and>
   roundtrip test_platform test_world [0x61, 0, 0x431, 0xD83D, 0xDE00] test_key =
     Inr [0x61, 0, 0x431, 0xD83D, 0xDE00] \<and>
   roundtrip test_platform test_world [] test_key = Inr []"
proof -
  have wf: "well_formed [0x61, 0, 0x431, 0xD83D, 0xDE00 :: code_unit]"
    by (simp add: is_lead_def is_trail_def)
  have nb: "\<not> starts_with_bom [0x61, 0, 0x431, 0xD83D, 0xDE00 :: code_unit]"
    by (simp add: starts_with_bom_def)
  have wf0: "well_formed []" "\<not> starts_with_bom []"
    by (simp_all add: starts_with_bom_def)
  show ?thesis
    using roundtrip_well_formed [OF test_platform_aead test_generateKey wf nb, of test_world]
      roundtrip_well_formed [OF test_platform_aead test_generateKey wf0, of test_world]
      test_platform_aead test_generateKey wf nb
    by simp
qed

text \<open>
  As C1 is written, for every string, it fails: \<open>TextDecoder\<close> drops a leading
  \<open>U+FEFF\<close>, and \<open>TextEncoder\<close> writes an unpaired surrogate as \<open>U+FFFD\<close>.
\<close>

theorem roundtrip_counterexample:
  "aead_contract test_platform \<and>
   fst (generateKey test_platform test_world) = Inr test_key \<and>
   roundtrip test_platform test_world [0xFEFF, 0x61] test_key = Inr [0x61] \<and>
   roundtrip test_platform test_world [0xD83D] test_key = Inr [0xFFFD]"
proof -
  have 1: "TextDecoder_decode (TextEncoder_encode [0xFEFF, 0x61]) = [0x61]"
    by (simp add: TextDecoder_decode_def TextEncoder_encode_def utf8_bytes_def
        bmp_scalar_def is_lead_def is_trail_def strip_bom_def utf16_units_def)
  have 2: "TextDecoder_decode (TextEncoder_encode [0xD83D]) = [0xFFFD]"
    by (simp add: TextDecoder_decode_def TextEncoder_encode_def utf8_bytes_def
        bmp_scalar_def is_lead_def is_trail_def strip_bom_def utf16_units_def)
  show ?thesis
    using roundtrip_eq [OF test_platform_aead test_generateKey, of test_world]
      test_platform_aead test_generateKey
    by (simp add: 1 2)
qed

lemma encrypt_world:
  assumes "importKey P k = Inr raw"
  shows "snd (encrypt P w p k) = w\<lparr>entropy := \<lambda>i. entropy w (i + 12)\<rparr>"
  using assms
  by (simp add: encrypt_def generateIV_def ivLength_def getRandomValues_def split_def)

lemma next_iv:
  "fst (generateIV (w\<lparr>entropy := \<lambda>i. entropy w (i + 12)\<rparr>)) = map (entropy w) [12..<24]"
proof -
  have "map (\<lambda>i. entropy w (i + 12)) [0..<12] = map (entropy w) (map (\<lambda>i. i + 12) [0..<12])"
    by (simp only: map_map o_def)
  also have "map (\<lambda>i. i + 12) [0..<12] = [12..<24]"
    using map_add_upt [of 12 12] by simp
  finally show ?thesis
    by (simp add: generateIV_def ivLength_def getRandomValues_def)
qed

text \<open>
  C4. For every plaintext and every key that \<open>importKey\<close> accepts, \<open>encrypt\<close>
  returns an envelope that decodes from base64 to \<open>12 + (n + 16)\<close> bytes, \<open>n\<close> the
  length of the plaintext in UTF-8: the 12 bytes of the IV, then what AES-GCM returned
  for that IV, which is the data and its 16-byte tag. The IV is freshly generated: it
  is the next 12 bytes of the random source, \<open>encrypt\<close> leaves the source 12 bytes
  further on and the rest of the world as it was, and so the IV of the next call is
  made of the 12 bytes after those.
\<close>

theorem envelope_length:
  assumes "aead_contract P" "importKey P k = Inr raw"
  shows "\<exists>envelope bytes.
     fst (encrypt P w p k) = Inr envelope \<and>
     base64ToArrayBuffer envelope = Inr bytes \<and>
     length bytes = 12 + (length (TextEncoder_encode p) + 16) \<and>
     take 12 bytes = fst (generateIV w) \<and>
     take 12 bytes = map (entropy w) [0..<12] \<and>
     aes_gcm_encrypt P raw (fst (generateIV w)) (TextEncoder_encode p) = Some (drop 12 bytes) \<and>
     snd (encrypt P w p k) = w\<lparr>entropy := \<lambda>i. entropy w (i + 12)\<rparr> \<and>
     fst (generateIV (snd (encrypt P w p k))) = map (entropy w) [12..<24]"
proof -
  let ?iv = "map (entropy w) [0..<12]"
  have iv: "fst (generateIV w) = ?iv"
    by (simp add: generateIV_def ivLength_def getRandomValues_def)
  obtain c where enc: "aes_gcm_encrypt P raw ?iv (TextEncoder_encode p) = Some c"
    and len: "length c = length (TextEncoder_encode p) + 16"
    using assms(1) importKey_InrD(2) [OF assms(2)] unfolding aead_contract_def
    by (metis (no_types, lifting) diff_zero length_map length_upt)
  have 1: "fst (encrypt P w p k) = Inr (b64_encode (map unat (?iv @ c)))"
    by (rule encrypt_Inr [OF assms(2) enc])
  have 2: "base64ToArrayBuffer (b64_encode (map unat (?iv @ c))) = Inr (?iv @ c)"
    by (rule base64ToArrayBuffer_encode)
  have 3: "length (?iv @ c) = 12 + (length (TextEncoder_encode p) + 16)"
    using len by simp
  have 4: "take 12 (?iv @ c) = ?iv" "drop 12 (?iv @ c) = c" by simp_all
  have 5: "snd (encrypt P w p k) = w\<lparr>entropy := \<lambda>i. entropy w (i + 12)\<rparr>"
    by (rule encrypt_world [OF assms(2)])
  have 6: "fst (generateIV (snd (encrypt P w p k))) = map (entropy w) [12..<24]"
    unfolding 5 by (rule next_iv)
  show ?thesis
    using 1 2 3 4 5 6 enc iv by metis
qed

theorem envelope_length_witness:
  "aead_contract test_platform \<and>
   importKey test_platform test_key = Inr (map (entropy test_world) [0..<32]) \<and>
   (\<exists>envelope bytes.
      fst (encrypt test_platform test_world [0x61, 0x431] test_key) = Inr envelope \<and>
      base64ToArrayBuffer envelope = Inr bytes \<and>
      length bytes = 12 + (length (TextEncoder_encode [0x61, 0x431]) + 16) \<and>
      take 12 bytes = fst (generateIV test_world) \<and>
      take 12 bytes = [1, 8, 15, 22, 29, 36, 43, 50, 57, 64, 71, 78] \<and>
      aes_gcm_encrypt test_platform (map (entropy test_world) [0..<32])
        (fst (generateIV test_world)) (TextEncoder_encode [0x61, 0x431]) =
        Some (drop 12 bytes)) \<and>
   length (TextEncoder_encode [0x61, 0x431]) = 3 \<and>
   fst (generateIV (snd (encrypt test_platform test_world [0x61, 0x431] test_key))) =
     [85, 92, 99, 106, 113, 120, 127, 134, 141, 148, 155, 162]"
proof -
  have wc: "webcrypto test_platform" by (simp add: test_platform_def)
  have key: "importKey test_platform test_key = Inr (map (entropy test_world) [0..<32])"
    by (rule generateKey_importKey [OF wc test_generateKey])
  have len: "length (TextEncoder_encode [0x61, 0x431]) = 3"
    by (simp add: TextEncoder_encode_def utf8_bytes_def bmp_scalar_def is_lead_def
        is_trail_def)
  have iv1: "map (entropy test_world) [0..<12] = [1, 8, 15, 22, 29, 36, 43, 50, 57, 64, 71, 78]"
    by (simp add: test_world_def upt_rec [of _ "numeral _"])
  have iv2: "map (entropy test_world) [12..<24] =
      [85, 92, 99, 106, 113, 120, 127, 134, 141, 148, 155, 162]"
    by (simp add: test_world_def upt_rec [of _ "numeral _"])
  show ?thesis
    using envelope_length [OF test_platform_aead key, of test_world "[0x61, 0x431]"]
      test_platform_aead key len
    unfolding iv1 iv2 by metis
qed

lemma b64_encode_nonempty: "bs \<noteq> [] \<Longrightarrow> b64_encode bs \<noteq> []"
  by (cases bs rule: b64_encode.cases) simp_all

lemma generateKey_nonempty:
  assumes "generateKey P w = (Inr k, w')"
  shows "k \<noteq> []"
proof -
  have wc: "webcrypto P"
    using assms
    by (auto simp: generateKey_def subtle_generateKey_def bind_result_def rethrow_as_def
        split: if_splits)
  have "k = b64_encode (map unat (map (entropy w) [0..<32]))"
    using assms by (simp add: generateKey_webcrypto [OF wc])
  then show ?thesis by (simp add: b64_encode_nonempty)
qed

lemma getOrCreateKey_stored:
  assumes "getItem w encryption_key = Some k" "k \<noteq> []"
  shows "getOrCreateKey P w = (Inr k, w)"
  using assms by (simp add: getOrCreateKey_def)

lemma getOrCreateKey_stores:
  assumes "getOrCreateKey P w = (Inr k, w1)"
  shows "getItem w1 encryption_key = Some k \<and> k \<noteq> []"
proof (cases "\<exists>k0. getItem w encryption_key = Some k0 \<and> k0 \<noteq> []")
  case True
  then obtain k0 where k0: "getItem w encryption_key = Some k0" "k0 \<noteq> []" by blast
  with assms getOrCreateKey_stored [OF k0, of P] show ?thesis by simp
next
  case False
  then have c: "getOrCreateKey P w = create_key P w"
    by (auto simp: getOrCreateKey_def split: option.splits)
  obtain r w' where g: "generateKey P w = (r, w')" by (cases "generateKey P w")
  with assms c have r: "r = Inr k" and w1: "w1 = setItem w' encryption_key k"
    by (auto simp: create_key_def split: sum.splits)
  from g r have "k \<noteq> []" by (simp add: generateKey_nonempty)
  then show ?thesis by (simp add: w1 getItem_def setItem_def)
qed

text \<open>
  C5 (amended). Once \<open>getOrCreateKey\<close> has returned a key, it returns the same key
  for as long as the slot \<open>encryption_key\<close> is not written, and leaves the store as it
  is; and a key in the store that is not the empty string is returned and not
  overwritten.
\<close>

theorem getOrCreateKey_idempotent:
  "(getOrCreateKey P w = (Inr k, w1) \<and>
      getItem w2 encryption_key = getItem w1 encryption_key \<longrightarrow>
      getOrCreateKey P w2 = (Inr k, w2)) \<and>
   (getItem w encryption_key = Some k0 \<and> k0 \<noteq> [] \<longrightarrow> getOrCreateKey P w = (Inr k0, w))"
  using getOrCreateKey_stores [of P w k w1] getOrCreateKey_stored [of w2 k P]
    getOrCreateKey_stored [of w k0 P]
  by auto

lemma test_getOrCreateKey:
  "getOrCreateKey test_platform test_world =
     (Inr test_key, setItem (snd (getRandomValues test_world 32)) encryption_key test_key)"
proof -
  have wc: "webcrypto test_platform" by (simp add: test_platform_def)
  have "generateKey test_platform test_world =
      (Inr test_key, snd (getRandomValues test_world 32))"
    using test_generateKey generateKey_webcrypto [OF wc, of test_world] by simp
  moreover have "getItem test_world encryption_key = None"
    by (simp add: getItem_def test_world_def)
  ultimately show ?thesis by (simp add: getOrCreateKey_def create_key_def)
qed

theorem getOrCreateKey_idempotent_witness:
  "getOrCreateKey test_platform test_world =
     (Inr test_key, setItem (snd (getRandomValues test_world 32)) encryption_key test_key) \<and>
   getOrCreateKey test_platform
     (saveSeedPhrase (setItem (snd (getRandomValues test_world 32)) encryption_key test_key) []) =
     (Inr test_key,
      saveSeedPhrase (setItem (snd (getRandomValues test_world 32)) encryption_key test_key) []) \<and>
   getItem (saveKey test_world test_key) encryption_key = Some test_key \<and> test_key \<noteq> [] \<and>
   getOrCreateKey test_platform (saveKey test_world test_key) =
     (Inr test_key, saveKey test_world test_key)"
proof -
  let ?w1 = "setItem (snd (getRandomValues test_world 32)) encryption_key test_key"
  have ne: "encryption_key \<noteq> seed_phrase"
    by (simp add: encryption_key_def seed_phrase_def ascii_def)
  have same: "getItem (saveSeedPhrase ?w1 []) encryption_key = getItem ?w1 encryption_key"
    using ne by (simp add: saveSeedPhrase_def getItem_def setItem_def)
  have stored: "getItem (saveKey test_world test_key) encryption_key = Some test_key"
    by (simp add: saveKey_def getItem_def setItem_def)
  have nonempty: "test_key \<noteq> []" by (simp add: test_key_def ascii_def)
  show ?thesis
    using getOrCreateKey_idempotent [where P = test_platform and w = test_world
        and k = test_key and ?w1.0 = ?w1 and ?w2.0 = "saveSeedPhrase ?w1 []"]
      getOrCreateKey_idempotent [where P = test_platform
        and w = "saveKey test_world test_key" and ?k0.0 = test_key]
      test_getOrCreateKey same stored nonempty
    by simp
qed

text \<open>
  As C5 is written it fails when the slot holds the empty string: \<open>hasKey\<close> says a
  key exists, and \<open>getOrCreateKey\<close> writes a new one over it.
\<close>

theorem getOrCreateKey_counterexample:
  "hasKey (saveKey test_world []) \<and>
   getItem (saveKey test_world []) encryption_key = Some [] \<and>
   fst (getOrCreateKey test_platform (saveKey test_world [])) = Inr test_key \<and>
   getItem (snd (getOrCreateKey test_platform (saveKey test_world []))) encryption_key =
     Some test_key \<and>
   test_key \<noteq> []"
proof -
  have wc: "webcrypto test_platform" by (simp add: test_platform_def)
  have e: "entropy (saveKey test_world []) = entropy test_world"
    by (simp add: saveKey_def setItem_def)
  have "fst (generateKey test_platform (saveKey test_world [])) = Inr test_key"
    using test_generateKey
    by (simp add: generateKey_webcrypto [OF wc] e)
  then obtain w' where "generateKey test_platform (saveKey test_world []) = (Inr test_key, w')"
    by (cases "generateKey test_platform (saveKey test_world [])") simp
  moreover have s: "getItem (saveKey test_world []) encryption_key = Some []"
    by (simp add: saveKey_def getItem_def setItem_def)
  ultimately have "getOrCreateKey test_platform (saveKey test_world []) =
      (Inr test_key, setItem w' encryption_key test_key)"
    by (simp add: getOrCreateKey_def create_key_def)
  then show ?thesis
    using s by (simp add: hasKey_def getItem_def setItem_def test_key_def ascii_def)
qed

section \<open>JSON payloads and key derivation\<close>

lemma decrypt_not_SyntaxError: "decrypt P e k \<noteq> Inl SyntaxError"
  by (simp add: decrypt_def rethrow_as_def split: sum.splits)

text \<open>
  C6 (amended). When the key imports, the envelope decodes and AES-GCM authenticates
  and decrypts it, but \<open>JSON.parse\<close> rejects the text that \<open>TextDecoder\<close> makes of
  the plaintext bytes, \<open>decryptObject\<close> fails with the \<open>SyntaxError\<close> of
  \<open>JSON.parse\<close>. That is not the error of \<open>decrypt\<close>, and \<open>decrypt\<close> never fails
  with it.
\<close>

theorem decryptObject_malformed:
  assumes "importKey P k = Inr raw"
    and "base64ToArrayBuffer e = Inr combined"
    and "aes_gcm_decrypt P raw (take 12 combined) (drop 12 combined) = Some bytes"
    and "JSON_parse P (TextDecoder_decode bytes) = None"
  shows "decryptObject P e k = Inl SyntaxError \<and> SyntaxError \<noteq> DecryptionFailed \<and>
         decrypt P e' k' \<noteq> Inl SyntaxError"
proof -
  have "decrypt P e k = Inr (TextDecoder_decode bytes)"
    using assms(1-3) importKey_InrD(1) [OF assms(1)]
    by (simp add: decrypt_def ivLength_def subtle_decrypt_def rethrow_as_def
        bind_result_def Let_def)
  then show ?thesis
    using assms(4) by (simp add: decryptObject_def bind_result_def decrypt_not_SyntaxError)
qed

lemma test_importKey: "importKey test_platform test_key = Inr (map (entropy test_world) [0..<32])"
proof -
  have wc: "webcrypto test_platform" by (simp add: test_platform_def)
  show ?thesis by (rule generateKey_importKey [OF wc test_generateKey])
qed

lemma rep16: "replicate 16 x = [x, x, x, x, x, x, x, x, x, x, x, x, x, x, x, x]"
  by (simp add: eval_nat_numeral)

lemma rep32: "replicate 32 x = replicate 16 x @ replicate 16 x"
  by (simp add: replicate_add [symmetric])

lemma hello_envelope_bytes:
  "base64ToArrayBuffer hello_envelope =
     Inr (map (entropy test_world) [0..<12] @ TextEncoder_encode (ascii ''hello'') @ replicate 16 0)"
proof -
  have "fst (encrypt test_platform test_world (ascii ''hello'') test_key) =
      Inr (b64_encode (map unat (map (entropy test_world) [0..<12] @
        (TextEncoder_encode (ascii ''hello'') @ replicate 16 0))))"
    by (rule encrypt_Inr [OF test_importKey]) (simp add: test_platform_def test_encrypt_def)
  moreover have "b64_encode (map unat (map (entropy test_world) [0..<12] @
        (TextEncoder_encode (ascii ''hello'') @ replicate 16 0))) = hello_envelope"
    by (simp add: test_world_def TextEncoder_encode_def utf8_bytes_def bmp_scalar_def
        is_lead_def is_trail_def ascii_def hello_envelope_def b64_char_def pad_def
        upt_rec [of _ "numeral _"] rep16)
  ultimately show ?thesis
    using base64ToArrayBuffer_encode [of "map (entropy test_world) [0..<12] @
        (TextEncoder_encode (ascii ''hello'') @ replicate 16 0)"]
    by simp
qed

theorem decryptObject_malformed_witness:
  "importKey test_platform test_key = Inr (map (entropy test_world) [0..<32]) \<and>
   base64ToArrayBuffer hello_envelope =
     Inr (map (entropy test_world) [0..<12] @ TextEncoder_encode (ascii ''hello'') @ replicate 16 0) \<and>
   JSON_parse test_platform (ascii ''hello'') = None \<and>
   decrypt test_platform hello_envelope test_key = Inr (ascii ''hello'') \<and>
   decryptObject test_platform hello_envelope test_key = Inl SyntaxError \<and>
   decrypt test_platform (ascii ''x'') test_key = Inl DecryptionFailed"
proof -
  let ?combined = "map (entropy test_world) [0..<12] @
     TextEncoder_encode (ascii ''hello'') @ replicate 16 0"
  have t: "TextEncoder_encode (ascii ''hello'') = [104, 101, 108, 108, 111]"
    by (simp add: TextEncoder_encode_def utf8_bytes_def bmp_scalar_def
        is_lead_def is_trail_def ascii_def)
  have d: "TextDecoder_decode [104, 101, 108, 108, 111] = ascii ''hello''"
    by (simp add: TextDecoder_decode_def strip_bom_def utf16_units_def ascii_def)
  have dec: "aes_gcm_decrypt test_platform (map (entropy test_world) [0..<32])
      (take 12 ?combined) (drop 12 ?combined) = Some [104, 101, 108, 108, 111]"
    by (simp add: test_platform_def test_decrypt_def t)
  have np: "JSON_parse test_platform (TextDecoder_decode [104, 101, 108, 108, 111]) = None"
    by (simp add: d test_platform_def test_parse_def ascii_def envelope_prefix_def
        envelope_suffix_def)
  have ok: "decrypt test_platform hello_envelope test_key = Inr (ascii ''hello'')"
    using test_importKey hello_envelope_bytes dec d
    by (simp add: decrypt_def ivLength_def subtle_decrypt_def rethrow_as_def bind_result_def
        Let_def test_platform_def)
  have bad: "decrypt test_platform (ascii ''x'') test_key = Inl DecryptionFailed"
    using test_importKey
    by (simp add: decrypt_def bind_result_def rethrow_as_def base64ToArrayBuffer_def atob_def
        strip_padding_def is_ascii_whitespace_def ascii_def pad_def)
  show ?thesis
    using decryptObject_malformed [OF test_importKey hello_envelope_bytes dec np]
      test_importKey hello_envelope_bytes np d ok bad
    by simp
qed

lemma garbled_envelope_bytes:
  "base64ToArrayBuffer garbled_envelope =
     Inr (map (entropy test_world) [0..<12] @ [0x22, 0xFF, 0x22] @ replicate 16 0)"
proof -
  have "b64_encode (map unat (map (entropy test_world) [0..<12] @
        ([0x22, 0xFF, 0x22] @ replicate 16 0))) = garbled_envelope"
    by (simp add: test_world_def ascii_def garbled_envelope_def b64_char_def pad_def
        upt_rec [of _ "numeral _"] rep16)
  then show ?thesis
    using base64ToArrayBuffer_encode [of "map (entropy test_world) [0..<12] @
        ([0x22, 0xFF, 0x22] @ replicate 16 0)"]
    by simp
qed

text \<open>
  As C6 is written it fails on plaintext bytes that are not UTF-8: \<open>TextDecoder\<close>
  replaces the ill-formed byte by \<open>U+FFFD\<close>, \<open>JSON.parse\<close> accepts the text, and
  \<open>decryptObject\<close> returns a value.
\<close>

theorem decryptObject_malformed_counterexample:
  "importKey test_platform test_key = Inr (map (entropy test_world) [0..<32]) \<and>
   base64ToArrayBuffer garbled_envelope =
     Inr (map (entropy test_world) [0..<12] @ [0x22, 0xFF, 0x22] @ replicate 16 0) \<and>
   aes_gcm_decrypt test_platform (map (entropy test_world) [0..<32])
     (map (entropy test_world) [0..<12]) ([0x22, 0xFF, 0x22] @ replicate 16 0) =
     Some [0x22, 0xFF, 0x22] \<and>
   \<not> valid_json_document test_platform [0x22, 0xFF, 0x22] \<and>
   decryptObject test_platform garbled_envelope test_key = Inr (JString [0xFFFD])"
proof -
  have dec: "aes_gcm_decrypt test_platform (map (entropy test_world) [0..<32])
     (map (entropy test_world) [0..<12]) ([0x22, 0xFF, 0x22] @ replicate 16 0) =
     Some [0x22, 0xFF, 0x22]"
    by (simp add: test_platform_def test_decrypt_def)
  have nv: "\<not> valid_json_document test_platform [0x22, 0xFF, 0x22]"
    by (simp add: valid_json_document_def utf8_valid_def utf8_bytes_def)
  have t: "TextDecoder_decode [0x22, 0xFF, 0x22] = [0x22, 0xFFFD, 0x22]"
    by (simp add: TextDecoder_decode_def strip_bom_def utf16_units_def)
  have p: "JSON_parse test_platform [0x22, 0xFFFD, 0x22] = Some (JString [0xFFFD])"
    by (simp add: test_platform_def test_parse_def ascii_def)
  have "decrypt test_platform garbled_envelope test_key = Inr [0x22, 0xFFFD, 0x22]"
    using test_importKey garbled_envelope_bytes dec t
    by (simp add: decrypt_def ivLength_def subtle_decrypt_def rethrow_as_def bind_result_def
        Let_def test_platform_def)
  then have "decryptObject test_platform garbled_envelope test_key = Inr (JString [0xFFFD])"
    using p by (simp add: decryptObject_def bind_result_def)
  then show ?thesis
    using test_importKey garbled_envelope_bytes dec nv by simp
qed

lemma salt_bytes:
  "TextEncoder_encode (ascii ''sb_finance_salt_2024'') =
     [115, 98, 95, 102, 105, 110, 97, 110, 99, 101, 95, 115, 97, 108, 116, 95, 50, 48, 50, 52]"
  by (simp add: TextEncoder_encode_def utf8_bytes_def bmp_scalar_def is_lead_def is_trail_def
      ascii_def)

text \<open>
  C8. \<open>deriveKeyFromSeed\<close> returns the base64 of the 256 bits that PBKDF2 with SHA-256,
  100000 iterations and the salt \<open>sb_finance_salt_2024\<close> derives from the UTF-8 bytes
  of the phrase: the exported key material is a function of the phrase alone, so two
  calls with one phrase yield the same 32 bytes.
\<close>

theorem deriveKeyFromSeed_deterministic:
  assumes "pbkdf2_contract P"
  shows "\<exists>key material.
     deriveKeyFromSeed P phrase = Inr key \<and>
     base64ToArrayBuffer key = Inr material \<and>
     length material = 32 \<and>
     material =
       pbkdf2 P SHA_256 (TextEncoder_encode phrase)
         [115, 98, 95, 102, 105, 110, 97, 110, 99, 101, 95, 115, 97, 108, 116, 95,
          50, 48, 50, 52]
         100000 256"
proof -
  let ?m = "pbkdf2 P SHA_256 (TextEncoder_encode phrase)
     (TextEncoder_encode (ascii ''sb_finance_salt_2024'')) 100000 256"
  have wc: "webcrypto P" using assms by (simp add: pbkdf2_contract_def)
  have "length ?m = 256 div 8"
    using assms by (simp add: pbkdf2_contract_def)
  then have len: "length ?m = 32" by simp
  have "deriveKeyFromSeed P phrase = Inr (b64_encode (map unat ?m))"
    using wc
    by (simp add: deriveKeyFromSeed_def subtle_importKey_PBKDF2_def subtle_deriveBits_def
        bind_result_def arrayBufferToBase64_Inr Let_def)
  moreover have "base64ToArrayBuffer (b64_encode (map unat ?m)) = Inr ?m"
    by (rule base64ToArrayBuffer_encode)
  ultimately show ?thesis using len unfolding salt_bytes by blast
qed

theorem deriveKeyFromSeed_deterministic_witness:
  "pbkdf2_contract test_platform \<and>
   deriveKeyFromSeed test_platform (ascii ''a b'') =
     Inr (ascii ''AAAAAAAAAAAAAAAAAAAAAAAAAAAAAAAAAAAAAAAAAAA='') \<and>
   base64ToArrayBuffer (ascii ''AAAAAAAAAAAAAAAAAAAAAAAAAAAAAAAAAAAAAAAAAAA='') =
     Inr (replicate 32 0)"
proof -
  have c: "pbkdf2_contract test_platform"
    by (simp add: pbkdf2_contract_def test_platform_def)
  have m: "pbkdf2 test_platform h pw s i 256 = replicate 32 0" for h pw s i
    by (simp add: test_platform_def)
  have e: "deriveKeyFromSeed test_platform (ascii ''a b'') =
      Inr (ascii ''AAAAAAAAAAAAAAAAAAAAAAAAAAAAAAAAAAAAAAAAAAA='')"
    by (simp add: deriveKeyFromSeed_def subtle_importKey_PBKDF2_def subtle_deriveBits_def
        bind_result_def arrayBufferToBase64_Inr Let_def m b64_char_def pad_def ascii_def
        rep32 rep16 test_platform_def)
  show ?thesis
    using deriveKeyFromSeed_deterministic [OF c, of "ascii ''a b''"] c e
    by (simp add: m)
qed

section \<open>The recovery phrase\<close>













section \<open>The interception layer\<close>

lemma global_fetch_eq:
  "global_fetch P w url options = (network P url options, w\<lparr>sent := sent w @ [(url, options)]\<rparr>)"
  by (simp add: global_fetch_def)

lemma encrypt_request_unchanged:
  assumes "body options = NoBody \<or> body options = OtherBody b \<or> body options = StringBody []"
  shows "encrypt_request P w options key = (Inr options, w)"
  using assms by (auto simp: encrypt_request_def)

text \<open>
  C10 (amended). With encryption enabled and the key resolved, a request whose body is
  absent, not a string, or the empty string goes to the network with its options as
  they were, and the outcome of \<open>fetch\<close> is that of the network and of reading the
  response: preparing the request raises nothing, and only a string that is not empty
  is rewritten into the transport form.
\<close>

theorem fetch_body_not_string:
  assumes "encryptionEnabled this"
    and "getOrCreateKey P w = (Inr key, w1)"
    and "body options = NoBody \<or> body options = OtherBody b \<or> body options = StringBody []"
  shows "fetch P this w url options =
     (bind_result (network P url options) (decrypt_response P key),
      w1\<lparr>sent := sent w1 @ [(url, options)]\<rparr>)"
  using assms(1,2) encrypt_request_unchanged [OF assms(3), of P w1 key]
  by (simp add: fetch_def global_fetch_eq)

lemma decrypt_response_enveloped:
  assumes "resp_headers resp (ascii ''content-type'') = Some ct"
    and "string_includes ct (ascii ''application/json'')"
    and "response_json P resp = (Inr data, resp')"
    and "get_property data (ascii ''encrypted'') = Inr (Some e)" "truthy e"
    and "get_property data (ascii ''data'') = Inr (Some payload)" "truthy payload"
  shows "decrypt_response P key resp =
     bind_result (decryptObject P (to_string P payload) key) (\<lambda>decrypted.
       new_Response (JSON_stringify P decrypted) (status resp') (statusText resp')
         (resp_headers resp'))"
  using assms by (simp add: decrypt_response_def bind_result_def)

text \<open>
  C2. With encryption enabled, when the response has a JSON content type, its body
  has a truthy \<open>encrypted\<close> and a truthy \<open>data\<close>, and decrypting \<open>data\<close> fails,
  \<open>fetch\<close> fails with that failure: it does not resolve with any response.
\<close>

theorem fetch_decrypt_failure:
  assumes "encryptionEnabled this"
    and "getOrCreateKey P w = (Inr key, w1)"
    and "encrypt_request P w1 options key = (Inr options', w2)"
    and "network P url options' = Inr resp"
    and "resp_headers resp (ascii ''content-type'') = Some ct"
    and "string_includes ct (ascii ''application/json'')"
    and "response_json P resp = (Inr data, resp')"
    and "get_property data (ascii ''encrypted'') = Inr (Some e)" "truthy e"
    and "get_property data (ascii ''data'') = Inr (Some payload)" "truthy payload"
    and "decryptObject P (to_string P payload) key = Inl err"
  shows "fst (fetch P this w url options) = Inl err"
proof -
  have "decrypt_response P key resp = Inl err"
    using decrypt_response_enveloped [OF assms(5-11), of key] assms(12)
    by (simp add: bind_result_def)
  then show ?thesis
    using assms(1-4) by (simp add: fetch_def global_fetch_eq bind_result_def)
qed

lemma decrypt_response_plain:
  assumes "resp_headers resp (ascii ''content-type'') = Some ct"
    and "string_includes ct (ascii ''application/json'')"
    and "\<not> bodyUsed resp"
    and "JSON_parse P (body_text resp) = Some data"
    and "get_property data (ascii ''encrypted'') = Inr None"
  shows "decrypt_response P key resp = Inr (resp\<lparr>bodyUsed := True\<rparr>)"
  using assms by (simp add: decrypt_response_def response_json_def bind_result_def)

lemma stored_key: "getOrCreateKey P stored_world = (Inr test_key, stored_world)"
proof (rule getOrCreateKey_stored)
  show "getItem stored_world encryption_key = Some test_key"
    by (simp add: stored_world_def saveKey_def getItem_def setItem_def)
  show "test_key \<noteq> []" by (simp add: test_key_def ascii_def)
qed

lemma importKey_test_key:
  assumes "webcrypto P"
  shows "importKey P test_key = Inr (map (entropy test_world) [0..<32])"
proof -
  have wc: "webcrypto test_platform" by (simp add: test_platform_def)
  have "fst (generateKey P test_world) = Inr test_key"
    using test_generateKey
    by (simp add: generateKey_webcrypto [OF assms] generateKey_webcrypto [OF wc])
  then show ?thesis by (rule generateKey_importKey [OF assms])
qed

lemma content_type_json:
  "string_includes (ascii ''application/json'') (ascii ''application/json'')"
  by (simp add: ascii_def)

lemma json_response_simps:
  "resp_headers (json_response t) (ascii ''content-type'') = Some (ascii ''application/json'')"
  "body_text (json_response t) = t" "\<not> bodyUsed (json_response t)"
  "status (json_response t) = 200"
  by (simp_all add: json_response_def)

theorem fetch_body_not_string_witness:
  "encryptionEnabled new_EncryptedFetch \<and>
   getOrCreateKey test_platform stored_world = (Inr test_key, stored_world) \<and>
   body blob_options = OtherBody [1, 2, 3] \<and>
   sent (snd (fetch test_platform new_EncryptedFetch stored_world (ascii ''/api'') blob_options)) =
     [(ascii ''/api'', blob_options)] \<and>
   fst (fetch test_platform new_EncryptedFetch stored_world (ascii ''/api'') blob_options) =
     Inr ((json_response (ascii ''{}''))\<lparr>bodyUsed := True\<rparr>)"
proof -
  have en: "encryptionEnabled new_EncryptedFetch" by (simp add: new_EncryptedFetch_def)
  have b: "body blob_options = OtherBody [1, 2, 3]"
    by (simp add: blob_options_def no_options_def)
  then have b': "body blob_options = NoBody \<or> body blob_options = OtherBody [1, 2, 3] \<or>
      body blob_options = StringBody []" by simp
  have n: "network test_platform (ascii ''/api'') blob_options = Inr (json_response (ascii ''{}''))"
    by (simp add: test_platform_def)
  have p: "JSON_parse test_platform (body_text (json_response (ascii ''{}''))) = Some (JObject [])"
    by (simp add: json_response_simps test_platform_def test_parse_def)
  have d: "decrypt_response test_platform test_key (json_response (ascii ''{}'')) =
      Inr ((json_response (ascii ''{}''))\<lparr>bodyUsed := True\<rparr>)"
    by (rule decrypt_response_plain [OF json_response_simps(1) content_type_json
          json_response_simps(3) p])
       (simp add: get_property_def)
  have s: "sent stored_world = []"
    by (simp add: stored_world_def saveKey_def setItem_def test_world_def)
  show ?thesis
    using fetch_body_not_string [OF en stored_key b', where url = "ascii ''/api''"] en stored_key b
    by (simp add: n d s bind_result_def)
qed

text \<open>
  As C10 is written it fails when no key can be made: without \<open>crypto.subtle\<close> and
  with an empty store, \<open>fetch\<close> fails before anything is sent, whatever the body.
\<close>

theorem fetch_body_not_string_counterexample:
  "encryptionEnabled new_EncryptedFetch \<and> body no_options = NoBody \<and>
   fst (fetch insecure_platform new_EncryptedFetch test_world (ascii ''/api'') no_options) =
     Inl KeyGenerationFailed \<and>
   sent (snd (fetch insecure_platform new_EncryptedFetch test_world (ascii ''/api'') no_options)) = []"
proof -
  have g: "generateKey insecure_platform test_world = (Inl KeyGenerationFailed, test_world)"
    by (simp add: generateKey_def subtle_generateKey_def insecure_platform_def
        test_platform_def bind_result_def rethrow_as_def)
  have "getItem test_world encryption_key = None"
    by (simp add: getItem_def test_world_def)
  then have "getOrCreateKey insecure_platform test_world = (Inl KeyGenerationFailed, test_world)"
    by (simp add: getOrCreateKey_def create_key_def g)
  then show ?thesis
    by (simp add: fetch_def new_EncryptedFetch_def no_options_def test_world_def)
qed

theorem fetch_decrypt_failure_witness:
  "encryptionEnabled new_EncryptedFetch \<and>
   network enveloping_platform (ascii ''/api'') no_options = Inr enveloped_response \<and>
   body_text enveloped_response = envelope_prefix @ ascii ''AAAA'' @ envelope_suffix \<and>
   decryptObject enveloping_platform (ascii ''AAAA'') test_key = Inl DecryptionFailed \<and>
   fst (fetch enveloping_platform new_EncryptedFetch stored_world (ascii ''/api'') no_options) =
     Inl DecryptionFailed"
proof -
  let ?P = enveloping_platform
  let ?data = "JObject [(ascii ''encrypted'', JBool True), (ascii ''data'', JString (ascii ''AAAA''))]"
  have en: "encryptionEnabled new_EncryptedFetch" by (simp add: new_EncryptedFetch_def)
  have wc: "webcrypto ?P" by (simp add: enveloping_platform_def test_platform_def)
  have rq: "encrypt_request ?P stored_world no_options test_key = (Inr no_options, stored_world)"
    by (rule encrypt_request_unchanged) (simp add: no_options_def)
  have n: "network ?P (ascii ''/api'') no_options = Inr enveloped_response"
    by (simp add: enveloping_platform_def)
  have h: "resp_headers enveloped_response (ascii ''content-type'') = Some (ascii ''application/json'')"
    by (simp add: enveloped_response_def json_response_simps)
  have bt: "body_text enveloped_response = envelope_prefix @ ascii ''AAAA'' @ envelope_suffix"
    by (simp add: enveloped_response_def json_response_simps)
  have p: "JSON_parse ?P (envelope_prefix @ ascii ''AAAA'' @ envelope_suffix) = Some ?data"
    by (simp add: enveloping_platform_def test_platform_def test_parse_def
        envelope_prefix_def envelope_suffix_def ascii_def)
  have j: "response_json ?P enveloped_response = (Inr ?data, enveloped_response\<lparr>bodyUsed := True\<rparr>)"
    using p by (simp add: response_json_def bt) (simp add: enveloped_response_def json_response_def)
  have e: "get_property ?data (ascii ''encrypted'') = Inr (Some (JBool True))"
    by (simp add: get_property_def ascii_def)
  have d: "get_property ?data (ascii ''data'') = Inr (Some (JString (ascii ''AAAA'')))"
    by (simp add: get_property_def ascii_def)
  have t: "truthy (JBool True)" "truthy (JString (ascii ''AAAA''))"
    by (simp_all add: truthy_def ascii_def)
  have ts: "to_string ?P (JString (ascii ''AAAA'')) = ascii ''AAAA''"
    by (simp add: to_string_def)
  have b: "base64ToArrayBuffer (ascii ''AAAA'') = Inr [0, 0, 0]"
    by (simp add: base64ToArrayBuffer_def atob_def strip_padding_def is_ascii_whitespace_def
        b64_val_def pad_def ascii_def bind_result_def)
  have dec: "decrypt ?P (ascii ''AAAA'') test_key = Inl DecryptionFailed"
    using importKey_test_key [OF wc] b
    by (simp add: decrypt_def ivLength_def subtle_decrypt_def rethrow_as_def bind_result_def
        enveloping_platform_def test_platform_def test_decrypt_def)
  then have fail: "decryptObject ?P (to_string ?P (JString (ascii ''AAAA''))) test_key =
      Inl DecryptionFailed"
    by (simp add: decryptObject_def ts bind_result_def)
  show ?thesis
    using fetch_decrypt_failure [OF en stored_key rq n h content_type_json j e t(1) d t(2) fail]
      en n bt fail
    by (simp add: ts)
qed

text \<open>
  C3 on a run. The network answers a request with the JSON document \<open>{}\<close>, which is
  not in the transport form. \<open>fetch\<close> resolves with the very response whose body it
  has read: \<open>json()\<close> on the response of the network gives the document, \<open>json()\<close> on
  what the caller receives is rejected.
\<close>

theorem fetch_plain_json_body_used:
  "network test_platform (ascii ''/api'') no_options = Inr (json_response (ascii ''{}'')) \<and>
   fst (fetch test_platform new_EncryptedFetch stored_world (ascii ''/api'') no_options) =
     Inr ((json_response (ascii ''{}''))\<lparr>bodyUsed := True\<rparr>) \<and>
   fst (response_json test_platform (json_response (ascii ''{}''))) = Inr (JObject []) \<and>
   fst (response_json test_platform ((json_response (ascii ''{}''))\<lparr>bodyUsed := True\<rparr>)) =
     Inl TypeError"
proof -
  have en: "encryptionEnabled new_EncryptedFetch" by (simp add: new_EncryptedFetch_def)
  have rq: "encrypt_request test_platform stored_world no_options test_key =
      (Inr no_options, stored_world)"
    by (rule encrypt_request_unchanged) (simp add: no_options_def)
  have n: "network test_platform (ascii ''/api'') no_options = Inr (json_response (ascii ''{}''))"
    by (simp add: test_platform_def)
  have p: "JSON_parse test_platform (body_text (json_response (ascii ''{}''))) = Some (JObject [])"
    by (simp add: json_response_simps test_platform_def test_parse_def)
  have d: "decrypt_response test_platform test_key (json_response (ascii ''{}'')) =
      Inr ((json_response (ascii ''{}''))\<lparr>bodyUsed := True\<rparr>)"
    by (rule decrypt_response_plain [OF json_response_simps(1) content_type_json
          json_response_simps(3) p])
       (simp add: get_property_def)
  have f: "fst (fetch test_platform new_EncryptedFetch stored_world (ascii ''/api'') no_options) =
     Inr ((json_response (ascii ''{}''))\<lparr>bodyUsed := True\<rparr>)"
    using en stored_key [of test_platform] rq n d
    by (simp add: fetch_def global_fetch_eq bind_result_def)
  have r1: "fst (response_json test_platform (json_response (ascii ''{}''))) = Inr (JObject [])"
    using p by (simp add: response_json_def json_response_simps)
  have r2: "fst (response_json test_platform ((json_response (ascii ''{}''))\<lparr>bodyUsed := True\<rparr>)) =
     Inl TypeError"
    by (simp add: response_json_def)
  show ?thesis using n f r1 r2 by simp
qed

end
